theory Spec2Isabelle
  imports Complex_Main "HOL-Library.Multiset"
begin

section \<open>Tiles and Python errors\<close>

text \<open>
  A tile is the Python tuple \<open>(color, number, is_joker)\<close>: the colour is a string, the
  number is \<open>None\<close> on a joker of the pool, and the third component is the joker flag.
  The pool creates its jokers as \<open>("joker", None, True)\<close>; the board window hands over
  jokers placed by a human with the colour \<open>"purple"\<close>.
\<close>

type_synonym tile = "string \<times> int option \<times> bool"

definition tile_color :: "tile \<Rightarrow> string" where
  "tile_color t = fst t"

definition tile_number :: "tile \<Rightarrow> int option" where
  "tile_number t = fst (snd t)"

definition tile_is_joker :: "tile \<Rightarrow> bool" where
  "tile_is_joker t = snd (snd t)"

datatype py_error = IndexError | ValueError | TypeError | ZeroDivisionError

text \<open>\<open>[tile[1] for tile in tiles if tile[1] is not None]\<close>\<close>

fun tile_numbers :: "tile list \<Rightarrow> int list" where
  "tile_numbers [] = []"
| "tile_numbers (t # ts) =
     (case tile_number t of None \<Rightarrow> tile_numbers ts | Some n \<Rightarrow> n # tile_numbers ts)"

section \<open>Meld validator (RummikubAIHelper)\<close>

text \<open>
  The loop of \<open>is_valid_run\<close> over \<open>numbers\<close>, with the running \<open>expected_number\<close> and
  the jokers left. A number that differs from the expected one consumes a joker when one is
  left and is not compared again; the expected number is incremented in every iteration.
\<close>

fun run_loop :: "int list \<Rightarrow> int \<Rightarrow> nat \<Rightarrow> bool" where
  "run_loop [] expected_number jokers = True"
| "run_loop (n # ns) expected_number jokers =
     (if n \<noteq> expected_number then
        (if jokers > 0 then run_loop ns (expected_number + 1) (jokers - 1) else False)
      else run_loop ns (expected_number + 1) jokers)"

text \<open>
  \<open>is_valid_run\<close>: \<open>colors\<close> is the set of colours other than \<open>"purple"\<close>, \<open>numbers\<close> the
  numbers present in list order (the function does not sort), \<open>jokers\<close> the count of
  \<open>"purple"\<close> tiles. \<open>numbers[0]\<close> raises \<open>IndexError\<close> on an empty list.
\<close>

definition is_valid_run :: "tile list \<Rightarrow> py_error + bool" where
  "is_valid_run tiles =
     (let colors = set (map tile_color (filter (\<lambda>t. tile_color t \<noteq> ''purple'') tiles)) in
      if card colors > 1 then Inr False
      else
        let numbers = tile_numbers tiles;
            jokers = length (filter (\<lambda>t. tile_color t = ''purple'') tiles)
        in if length numbers + jokers < 3 then Inr False
           else (case numbers of
                   [] \<Rightarrow> Inl IndexError
                 | n0 # _ \<Rightarrow> Inr (run_loop numbers n0 jokers)))"

text \<open>
  \<open>is_valid_group\<close>: \<open>numbers\<close> is the set of all second components, \<open>None\<close> included;
  the two operands of \<open>or\<close> are tested in turn. Nothing in the function can raise.
\<close>

definition is_valid_group :: "tile list \<Rightarrow> bool" where
  "is_valid_group tiles =
     (let numbers = set (map tile_number tiles);
          colors = set (map tile_color (filter (\<lambda>t. tile_color t \<noteq> ''purple'') tiles))
      in if length tiles < 3 then False
         else if card numbers \<noteq> 1 then False
         else if int (card colors)
                 \<noteq> int (length tiles) - int (length (filter (\<lambda>t. tile_color t = ''purple'') tiles))
              then False
              else True)"

section \<open>Joker valuator (RummikubAIHelper)\<close>

text \<open>
  The scan of \<open>determine_joker_value\<close> over the sorted numbers: the first index \<open>i\<close> with
  \<open>numbers[i + 1] - numbers[i] > 1\<close> returns \<open>numbers[i] + 1\<close>.
\<close>

fun first_gap :: "int list \<Rightarrow> int option" where
  "first_gap (a # b # rest) = (if b - a > 1 then Some (a + 1) else first_gap (b # rest))"
| "first_gap _ = None"

definition determine_joker_value :: "tile list \<Rightarrow> py_error + int" where
  "determine_joker_value tiles =
     (if length tiles = 1 then Inr 0
      else
        let numbers = tile_numbers tiles in
        if card (set numbers) = 1 then
          (case numbers of [] \<Rightarrow> Inl IndexError | n # _ \<Rightarrow> Inr n)
        else
          let sorted_numbers = sort numbers in
          (case first_gap sorted_numbers of
             Some v \<Rightarrow> Inr v
           | None \<Rightarrow>
               (case tiles of
                  [] \<Rightarrow> Inl IndexError
                | t # _ \<Rightarrow>
                    (case sorted_numbers of
                       [] \<Rightarrow> Inl IndexError
                     | n # _ \<Rightarrow>
                         if tile_is_joker t then Inr (n - 1)
                         else Inr (last sorted_numbers + 1)))))"

section \<open>Initial meld search (RummikubAIHelper)\<close>

type_synonym meld = "tile list"
type_synonym board = "meld list"
type_synonym hand = "tile list"

text \<open>\<open>itertools.combinations(xs, k)\<close>, in the order Python yields them.\<close>

fun combinations :: "'a list \<Rightarrow> nat \<Rightarrow> 'a list list" where
  "combinations xs 0 = [[]]"
| "combinations [] (Suc k) = []"
| "combinations (x # xs) (Suc k) = map ((#) x) (combinations xs k) @ combinations xs (Suc k)"

definition find_valid_groups :: "tile list \<Rightarrow> meld list" where
  "find_valid_groups same_number_tiles =
     (if length same_number_tiles \<ge> 3 then
        filter (\<lambda>combo. card (set (map tile_color combo)) = 3) (combinations same_number_tiles 3)
        @ (if length same_number_tiles = 4 \<and> card (set (map tile_color same_number_tiles)) = 4
           then [same_number_tiles] else [])
      else [])"

text \<open>
  \<open>find_valid_runs\<close> and the tile sets built from it only ever see the tiles that
  \<open>find_valid_sets\<close> has filtered by \<open>number is not None\<close>; \<open>number_key\<close> reads the number
  of such a tile (the \<open>None\<close> case is never reached from \<open>find_valid_sets\<close>).
\<close>

definition number_key :: "tile \<Rightarrow> int" where
  "number_key t = (case tile_number t of Some n \<Rightarrow> n | None \<Rightarrow> 0)"

text \<open>\<open>all(run[k][1] == run[k - 1][1] + 1 for k in range(1, len(run)))\<close>\<close>

fun consecutive :: "tile list \<Rightarrow> bool" where
  "consecutive (a # b # rest) = (number_key b = number_key a + 1 \<and> consecutive (b # rest))"
| "consecutive _ = True"

definition runs_of_color :: "tile list \<Rightarrow> meld list" where
  "runs_of_color same_color_tiles =
     concat (map (\<lambda>i. concat (map (\<lambda>j.
         let run = take (j + 1 - i) (drop i same_color_tiles)
         in if consecutive run then [run] else [])
       [i + 2 ..< length same_color_tiles]))
     [0 ..< length same_color_tiles - 2])"

definition find_valid_runs :: "tile list \<Rightarrow> meld list" where
  "find_valid_runs tiles =
     concat (map (\<lambda>color.
         runs_of_color (sort_key number_key (filter (\<lambda>t. tile_color t = color) tiles)))
       [''green'', ''blue'', ''yellow'', ''red''])"

definition find_valid_sets :: "hand \<Rightarrow> meld list" where
  "find_valid_sets player_tiles =
     (let tiles = filter (\<lambda>t. tile_number t \<noteq> None) player_tiles in
      concat (map (\<lambda>number. find_valid_groups (filter (\<lambda>t. tile_number t = Some number) tiles))
                  [1 ..< 14])
      @ find_valid_runs tiles)"

text \<open>
  \<open>calculate_points\<close>: a tile whose flag is set counts as the joker value of the set, any
  other tile as its number; adding \<open>None\<close> raises \<open>TypeError\<close>.
\<close>

fun sum_points :: "int \<Rightarrow> tile list \<Rightarrow> py_error + int" where
  "sum_points joker_value [] = Inr 0"
| "sum_points joker_value (t # ts) =
     (case (if \<not> tile_is_joker t then tile_number t else Some joker_value) of
        None \<Rightarrow> Inl TypeError
      | Some v \<Rightarrow> (case sum_points joker_value ts of Inl e \<Rightarrow> Inl e | Inr s \<Rightarrow> Inr (v + s)))"

definition calculate_points :: "tile list \<Rightarrow> py_error + int" where
  "calculate_points tiles =
     (case determine_joker_value tiles of
        Inl e \<Rightarrow> Inl e
      | Inr joker_value \<Rightarrow> sum_points joker_value tiles)"

text \<open>The keys of \<open>valid_sets.sort(key=calculate_points, ...)\<close>; the first error is raised.\<close>

fun with_points :: "meld list \<Rightarrow> py_error + (int \<times> meld) list" where
  "with_points [] = Inr []"
| "with_points (s # ss) =
     (case calculate_points s of
        Inl e \<Rightarrow> Inl e
      | Inr p \<Rightarrow> (case with_points ss of Inl e \<Rightarrow> Inl e | Inr ps \<Rightarrow> Inr ((p, s) # ps)))"

text \<open>
  The packing loop of \<open>find_tiles_for_30_points\<close> over the sorted sets, each paired with
  its points: \<open>used_tiles\<close> is a set of tile values, so two equal tiles of a hand count as
  one.
\<close>

fun pack :: "(int \<times> meld) list \<Rightarrow> tile set \<Rightarrow> meld list \<Rightarrow> int \<Rightarrow> meld list \<times> int" where
  "pack [] used_tiles result_sets total_points = (result_sets, total_points)"
| "pack ((p, tile_set) # rest) used_tiles result_sets total_points =
     (if total_points \<ge> 30 then (result_sets, total_points)
      else if used_tiles \<inter> set tile_set = {}
           then pack rest (used_tiles \<union> set tile_set) (result_sets @ [tile_set]) (total_points + p)
           else pack rest used_tiles result_sets total_points)"

text \<open>
  \<open>sort(key=..., reverse=True)\<close> is stable: sets of equal points keep their order, as
  \<open>sort_key\<close> on the negated points does.
\<close>

definition find_tiles_for_30_points :: "hand \<Rightarrow> py_error + meld list option" where
  "find_tiles_for_30_points player_tiles =
     (case with_points (find_valid_sets player_tiles) of
        Inl e \<Rightarrow> Inl e
      | Inr valid_sets \<Rightarrow>
          (case pack (sort_key (\<lambda>(p, s). - p) valid_sets) {} [] 0 of
             (result_sets, total_points) \<Rightarrow>
               Inr (if total_points \<ge> 30 then Some result_sets else None)))"

section \<open>Move generator (RummikubPlayer)\<close>

text \<open>
  \<open>defaultdict(list)\<close> filled by \<open>d[key].append(tile)\<close>: keys in order of first
  occurrence, each list in hand order.
\<close>

fun add_to_group :: "'k \<Rightarrow> tile \<Rightarrow> ('k \<times> tile list) list \<Rightarrow> ('k \<times> tile list) list" where
  "add_to_group k t [] = [(k, [t])]"
| "add_to_group k t ((k', ts) # rest) =
     (if k = k' then (k', ts @ [t]) # rest else (k', ts) # add_to_group k t rest)"

definition group_tiles :: "(tile \<Rightarrow> 'k) \<Rightarrow> tile list \<Rightarrow> ('k \<times> tile list) list" where
  "group_tiles key tiles = fold (\<lambda>t d. add_to_group (key t) t d) tiles []"

definition run_sort_key :: "tile \<Rightarrow> int" where
  "run_sort_key t = (case tile_number t of Some n \<Rightarrow> n | None \<Rightarrow> 100)"

definition continues_run :: "tile \<Rightarrow> tile \<Rightarrow> bool" where
  "continues_run prev t =
     (case tile_number t of
        None \<Rightarrow> True
      | Some n \<Rightarrow> (case tile_number prev of None \<Rightarrow> True | Some m \<Rightarrow> n = m + 1))"

text \<open>The loop of \<open>generate_runs\<close> over the sorted tiles of one colour.\<close>

fun build_runs :: "tile list \<Rightarrow> meld \<Rightarrow> meld list \<Rightarrow> meld list" where
  "build_runs [] run runs = (if length run \<ge> 3 then runs @ [run] else runs)"
| "build_runs (t # ts) run runs =
     (if run = [] \<or> continues_run (last run) t then build_runs ts (run @ [t]) runs
      else build_runs ts [t] (if length run \<ge> 3 then runs @ [run] else runs))"

definition generate_runs :: "(string \<times> tile list) list \<Rightarrow> meld list" where
  "generate_runs grouped_by_color =
     fold (\<lambda>(color, tiles) runs. build_runs (sort_key run_sort_key tiles) [] runs)
          grouped_by_color []"

text \<open>\<open>unique_tiles\<close>: the first tile of every colour.\<close>

fun unique_by_color :: "tile list \<Rightarrow> string set \<Rightarrow> tile list" where
  "unique_by_color [] unique_colors = []"
| "unique_by_color (t # ts) unique_colors =
     (if tile_color t \<notin> unique_colors
      then t # unique_by_color ts (insert (tile_color t) unique_colors)
      else unique_by_color ts unique_colors)"

definition generate_groups :: "(int option \<times> tile list) list \<Rightarrow> meld list" where
  "generate_groups grouped_by_value =
     concat (map (\<lambda>(v, tiles).
         let unique_tiles = unique_by_color tiles {}
         in if length unique_tiles \<ge> 3 then [unique_tiles] else [])
       grouped_by_value)"

text \<open>\<open>is_valid_group(new_group) or is_valid_run(new_group)\<close>\<close>

definition valid_group_or_run :: "tile list \<Rightarrow> py_error + bool" where
  "valid_group_or_run new_group =
     (if is_valid_group new_group then Inr True else is_valid_run new_group)"

text \<open>
  The innermost loop body of \<open>get_all_moves_from_board\<close> for board index \<open>i\<close>, hand tile
  \<open>tile\<close> and one of the two insertions; the state is \<open>(possible_moves, visited_states)\<close>.
\<close>

definition try_insert ::
  "board \<Rightarrow> hand \<Rightarrow> nat \<Rightarrow> tile \<Rightarrow> meld
   \<Rightarrow> (board \<times> hand) list \<times> (board \<times> hand) set
   \<Rightarrow> py_error + ((board \<times> hand) list \<times> (board \<times> hand) set)" where
  "try_insert board_tiles player_tiles i tile new_group st =
     (case valid_group_or_run new_group of
        Inl e \<Rightarrow> Inl e
      | Inr False \<Rightarrow> Inr st
      | Inr True \<Rightarrow>
          (let modified_board_tiles = take i board_tiles @ [new_group] @ drop (i + 1) board_tiles;
               modified_player_tiles = filter (\<lambda>t. t \<noteq> tile) player_tiles;
               state_signature = (modified_board_tiles, modified_player_tiles)
           in if state_signature \<in> snd st then Inr st
              else Inr (fst st @ [state_signature], insert state_signature (snd st))))"

fun try_all ::
  "board \<Rightarrow> hand \<Rightarrow> (nat \<times> tile \<times> meld) list
   \<Rightarrow> (board \<times> hand) list \<times> (board \<times> hand) set
   \<Rightarrow> py_error + ((board \<times> hand) list \<times> (board \<times> hand) set)" where
  "try_all board_tiles player_tiles [] st = Inr st"
| "try_all board_tiles player_tiles ((i, tile, new_group) # rest) st =
     (case try_insert board_tiles player_tiles i tile new_group st of
        Inl e \<Rightarrow> Inl e
      | Inr st' \<Rightarrow> try_all board_tiles player_tiles rest st')"

definition get_all_moves_from_board :: "board \<Rightarrow> hand \<Rightarrow> py_error + (board \<times> hand) list" where
  "get_all_moves_from_board board_tiles player_tiles =
     (case try_all board_tiles player_tiles
             (concat (map (\<lambda>(i, board_group).
                 concat (map (\<lambda>tile. [(i, tile, [tile] @ board_group), (i, tile, board_group @ [tile])])
                             player_tiles))
               (zip [0 ..< length board_tiles] board_tiles)))
             ([], {}) of
        Inl e \<Rightarrow> Inl e
      | Inr (possible_moves, visited_states) \<Rightarrow> Inr possible_moves)"

definition get_all_moves :: "board \<Rightarrow> hand \<Rightarrow> py_error + (board \<times> hand) list" where
  "get_all_moves board_tiles player_tiles =
     (let player_runs = generate_runs (group_tiles tile_color player_tiles);
          player_groups = generate_groups (group_tiles tile_number player_tiles);
          player_moves = player_runs @ player_groups
      in case get_all_moves_from_board board_tiles player_tiles of
           Inl e \<Rightarrow> Inl e
         | Inr board_moves \<Rightarrow>
             Inr (board_moves
                  @ map (\<lambda>new_group. (board_tiles @ [new_group],
                                       filter (\<lambda>tile. tile \<notin> set new_group) player_tiles))
                        player_moves))"

section \<open>Greedy strategy (RummikubGreedyAI)\<close>

text \<open>
  What \<open>AI_logic\<close> hands to \<open>get_move\<close>: a falsy value (\<open>None\<close> or the empty list), a list
  holding one tile, or the tuple \<open>(board, hand)\<close>. The three strategies return the first
  or the last shape.
\<close>

datatype ai_move = NoMove | SingletonList tile | BoardAndHand board hand

text \<open>
  The group sum of \<open>AI_logic\<close>: the numbers that are not \<open>None\<close>; a joker adds nothing.
  (The branch for a list nested inside a group needs a board that is not a list of melds.)
\<close>

definition group_sum :: "meld \<Rightarrow> int" where
  "group_sum grp = sum_list (tile_numbers grp)"

record greedy_best =
  best_move :: "(board \<times> hand) option"
  longest_group :: meld
  max_group_length :: int
  max_tile_sum :: int

definition greedy_consider :: "board \<times> hand \<Rightarrow> meld \<Rightarrow> greedy_best \<Rightarrow> greedy_best" where
  "greedy_consider move grp b =
     (let group_length = int (length grp); s = group_sum grp
      in if group_length > max_group_length b
            \<or> (group_length = max_group_length b \<and> s > max_tile_sum b)
         then \<lparr>best_move = Some move, longest_group = grp,
               max_group_length = group_length, max_tile_sum = s\<rparr>
         else b)"

definition greedy_scan :: "(board \<times> hand) list \<Rightarrow> greedy_best" where
  "greedy_scan moves =
     fold (\<lambda>move b. fold (greedy_consider move) (fst move) b) moves
          \<lparr>best_move = None, longest_group = [], max_group_length = - 1, max_tile_sum = - 1\<rparr>"

text \<open>\<open>best_move[1]\<close> raises \<open>TypeError\<close> while \<open>best_move\<close> is still \<open>None\<close>.\<close>

definition greedy_AI_logic :: "board \<Rightarrow> hand \<Rightarrow> py_error + ai_move" where
  "greedy_AI_logic board_tiles player_tiles =
     (case get_all_moves board_tiles player_tiles of
        Inl e \<Rightarrow> Inl e
      | Inr moves \<Rightarrow>
          if length moves = 0 then Inr NoMove
          else (let b = greedy_scan moves
                in case best_move b of
                     None \<Rightarrow> Inl TypeError
                   | Some m \<Rightarrow> Inr (BoardAndHand [longest_group b] (snd m))))"

section \<open>Turn protocol (RummikubPlayer)\<close>

text \<open>
  \<open>get_move\<close> returns \<open>(found, board, hand)\<close>. The one-element list shape appends to the
  caller's board and removes from the caller's hand in place; the second component of the
  result is the caller's \<open>(board_tiles, player_tiles)\<close> after the call.
\<close>

definition get_move ::
  "(board \<Rightarrow> hand \<Rightarrow> py_error + ai_move) \<Rightarrow> board \<Rightarrow> hand
   \<Rightarrow> py_error + ((bool \<times> board \<times> hand) \<times> (board \<times> hand))" where
  "get_move AI_logic board_tiles player_tiles =
     (case AI_logic board_tiles player_tiles of
        Inl e \<Rightarrow> Inl e
      | Inr NoMove \<Rightarrow> Inr ((False, board_tiles, player_tiles), (board_tiles, player_tiles))
      | Inr (SingletonList tile) \<Rightarrow>
          (let board' = board_tiles @ [[tile]] in
           if tile \<notin> set player_tiles then
             (if tile_color tile = ''joker'' then
                (if (''joker'', None, True) \<in> set player_tiles
                 then (let hand' = remove1 (''joker'', None, True) player_tiles
                       in Inr ((True, board', hand'), (board', hand')))
                 else Inl ValueError)
              else Inl ValueError)
           else (let hand' = remove1 tile player_tiles
                 in Inr ((True, board', hand'), (board', hand'))))
      | Inr (BoardAndHand new_board_tiles new_player_tiles) \<Rightarrow>
          Inr ((True, new_board_tiles, new_player_tiles), (board_tiles, player_tiles)))"

text \<open>\<open>for tile in ts: player_tiles.remove(tile)\<close>; \<open>list.remove\<close> raises \<open>ValueError\<close>.\<close>

fun remove_each :: "tile list \<Rightarrow> hand \<Rightarrow> py_error + hand" where
  "remove_each [] player_tiles = Inr player_tiles"
| "remove_each (t # ts) player_tiles =
     (if t \<in> set player_tiles then remove_each ts (remove1 t player_tiles) else Inl ValueError)"

text \<open>
  \<open>play_turn\<close> of a player whose flag is \<open>has_made_initial_meld\<close>. The result is the new
  flag, the caller's \<open>(board_tiles, player_tiles)\<close> after the call (the initial-meld branch
  works on them in place) and the value returned: \<open>None\<close> or \<open>(board, hand)\<close>.
\<close>

definition play_turn ::
  "(board \<Rightarrow> hand \<Rightarrow> py_error + ai_move) \<Rightarrow> bool \<Rightarrow> board \<Rightarrow> hand
   \<Rightarrow> py_error + (bool \<times> (board \<times> hand) \<times> (board \<times> hand) option)" where
  "play_turn AI_logic has_made_initial_meld board_tiles player_tiles =
     (if player_tiles = [] then Inr (has_made_initial_meld, (board_tiles, player_tiles), None)
      else if \<not> has_made_initial_meld then
        (case find_tiles_for_30_points player_tiles of
           Inl e \<Rightarrow> Inl e
         | Inr None \<Rightarrow> Inr (has_made_initial_meld, (board_tiles, player_tiles), None)
         | Inr (Some []) \<Rightarrow> Inr (has_made_initial_meld, (board_tiles, player_tiles), None)
         | Inr (Some (first_meld # more_melds)) \<Rightarrow>
             (case remove_each first_meld player_tiles of
                Inl e \<Rightarrow> Inl e
              | Inr hand' \<Rightarrow>
                  (let board' = board_tiles @ (first_meld # more_melds)
                   in Inr (True, (board', hand'), Some (board', hand')))))
      else
        (case get_move AI_logic board_tiles player_tiles of
           Inl e \<Rightarrow> Inl e
         | Inr ((success, new_board, new_hand), in_place) \<Rightarrow>
             Inr (has_made_initial_meld, in_place,
                  if success then Some (new_board, new_hand) else None)))"

section \<open>Game manager (RummikubGameManager)\<close>

datatype strategy = Random | Greedy | MCTS

record player =
  strategy :: strategy
  has_made_initial_meld :: bool

record game_manager =
  tile_pool :: "tile list"
  players_tiles :: "hand list"
  board_tiles :: board
  current_player_idx :: nat
  is_done :: "bool list"
  game_over :: bool
  players :: "player list"

text \<open>\<open>create_tile_pool\<close> before \<open>random.shuffle\<close>.\<close>

definition create_tiles :: "tile list" where
  "create_tiles =
     concat (map (\<lambda>color. concat (map (\<lambda>number. [(color, Some number, False), (color, Some number, False)])
                                        [1 ..< 14]))
                 [''green'', ''blue'', ''yellow'', ''red''])
     @ [(''joker'', None, True), (''joker'', None, True)]"

text \<open>\<open>draw_tile\<close>: \<open>tile_pool.pop()\<close> takes the last tile; an empty pool draws nothing.\<close>

definition draw_tile :: "game_manager \<Rightarrow> game_manager" where
  "draw_tile gm =
     (if tile_pool gm \<noteq> [] then
        gm\<lparr>tile_pool := butlast (tile_pool gm),
            players_tiles := (players_tiles gm)
              [current_player_idx gm :=
                 players_tiles gm ! current_player_idx gm @ [last (tile_pool gm)]]\<rparr>
      else gm)"

definition switch_player :: "game_manager \<Rightarrow> game_manager" where
  "switch_player gm = gm\<lparr>current_player_idx := (current_player_idx gm + 1) mod 2\<rparr>"

definition deal_initial_tiles :: "game_manager \<Rightarrow> game_manager" where
  "deal_initial_tiles gm =
     switch_player ((draw_tile ^^ 14) (switch_player ((draw_tile ^^ 14) gm)))"

text \<open>
  The manager as \<open>__init__\<close> leaves it for two AI players, given the outcome of the
  shuffle.
\<close>

definition new_game :: "tile list \<Rightarrow> strategy \<Rightarrow> strategy \<Rightarrow> game_manager" where
  "new_game shuffled_pool first_AI second_AI =
     (deal_initial_tiles
        \<lparr>tile_pool = shuffled_pool, players_tiles = [[], []], board_tiles = [],
         current_player_idx = 0, is_done = [False, False], game_over = False, players = []\<rparr>)
     \<lparr>players := [\<lparr>strategy = first_AI, has_made_initial_meld = False\<rparr>,
                  \<lparr>strategy = second_AI, has_made_initial_meld = False\<rparr>]\<rparr>"

definition total_tiles :: "game_manager \<Rightarrow> nat" where
  "total_tiles gm =
     length (tile_pool gm) + sum_list (map length (players_tiles gm))
     + sum_list (map length (board_tiles gm))"

text \<open>
  One iteration of the loop of \<open>ai_VS_ai\<close>, for a current player whose \<open>AI_logic\<close> is the
  given function (it must not change its arguments in place, as the greedy one does not).
  \<open>play_turn\<close> receives the manager's own board and hand lists, so its in-place changes
  are the manager's; a returned hand as long as the manager's hand counts as no move.
\<close>

definition ai_VS_ai_step ::
  "(board \<Rightarrow> hand \<Rightarrow> py_error + ai_move) \<Rightarrow> game_manager \<Rightarrow> py_error + game_manager" where
  "ai_VS_ai_step AI_logic gm =
     (let idx = current_player_idx gm; p = players gm ! idx in
      case play_turn AI_logic (has_made_initial_meld p) (board_tiles gm) (players_tiles gm ! idx) of
        Inl e \<Rightarrow> Inl e
      | Inr (flag, (board_now, hand_now), move) \<Rightarrow>
          (let gm1 = gm\<lparr>board_tiles := board_now,
                        players_tiles := (players_tiles gm)[idx := hand_now],
                        players := (players gm)[idx := p\<lparr>has_made_initial_meld := flag\<rparr>]\<rparr>;
               gm2 = (case move of
                        None \<Rightarrow>
                          if tile_pool gm1 \<noteq> [] then draw_tile gm1
                          else gm1\<lparr>is_done := (is_done gm1)[idx := True]\<rparr>
                      | Some (new_board, new_hand) \<Rightarrow>
                          if length new_hand = length (players_tiles gm1 ! idx) then
                            (if tile_pool gm1 \<noteq> [] then draw_tile gm1
                             else gm1\<lparr>is_done := (is_done gm1)[idx := True]\<rparr>)
                          else gm1\<lparr>board_tiles := new_board,
                                   players_tiles := (players_tiles gm1)[idx := new_hand]\<rparr>);
               gm3 = (if list_all (\<lambda>d. d) (is_done gm2) then gm2\<lparr>game_over := True\<rparr> else gm2)
           in Inr (switch_player gm3)))"

section \<open>Rollout simulator (RummikubMCTSAI)\<close>

text \<open>
  \<open>Simulator.__init__\<close> with \<open>prepare_simulator\<close>: \<open>simulator = game_manager\<close> binds the
  manager itself, so every assignment to \<open>simulator\<close> is an assignment to the manager the
  node was given. The result is that manager after the constructor has run;
  \<open>init_players(['greedy', 'random'])\<close> builds two new players, whose flags are then set.
\<close>

definition prepare_simulator :: "board \<Rightarrow> hand \<Rightarrow> game_manager \<Rightarrow> game_manager" where
  "prepare_simulator node_board_tiles node_player_tiles game_manager =
     game_manager
       \<lparr>board_tiles := node_board_tiles,
        players_tiles := (players_tiles game_manager)
                           [current_player_idx game_manager := node_player_tiles],
        current_player_idx := (current_player_idx game_manager + 1) mod 2,
        players := [\<lparr>strategy = Greedy, has_made_initial_meld = True\<rparr>,
                    \<lparr>strategy = Random, has_made_initial_meld = True\<rparr>]\<rparr>"

section \<open>Potential melds of a hand (RummikubAIHelper)\<close>

text \<open>
  \<open>get_potential_groups\<close>: the tiles are grouped by number; a group of three or more
  counts as it is, a group of two counts when the hand holds a tile of colour \<open>"joker"\<close>.
  (\<open>group_tiles_by_number\<close> and \<open>group_tiles_by_color\<close> build the dictionaries that the
  grouping loop of \<open>get_all_moves\<close> builds, keys in the order of their first occurrence.)
\<close>

definition get_potential_groups :: "tile list \<Rightarrow> meld list" where
  "get_potential_groups tiles =
     concat (map (\<lambda>(number, grp).
         if length grp \<ge> 3 then [grp]
         else if length grp = 2 then
           (case filter (\<lambda>tile. tile_color tile = ''joker'') tiles of
              [] \<Rightarrow> []
            | joker # _ \<Rightarrow> [grp @ [joker]])
         else [])
       (group_tiles tile_number tiles))"

text \<open>
  The windows \<open>run_tiles[i:i + 3]\<close> for \<open>i\<close> in \<open>range(len(run_tiles) - 2)\<close> that
  \<open>is_valid_run\<close> accepts.
\<close>

fun valid_windows :: "tile list list \<Rightarrow> py_error + meld list" where
  "valid_windows [] = Inr []"
| "valid_windows (run # others) =
     (case is_valid_run run of
        Inl e \<Rightarrow> Inl e
      | Inr ok \<Rightarrow>
          (case valid_windows others of
             Inl e \<Rightarrow> Inl e
           | Inr runs \<Rightarrow> Inr (if ok then run # runs else runs)))"

text \<open>
  The loop of \<open>get_potential_runs\<close> over the colours. Every run it appends has exactly
  three tiles, so the pass that extends runs shorter than three with the jokers never
  changes \<open>potential_runs\<close>.
\<close>

fun potential_runs_loop :: "(string \<times> tile list) list \<Rightarrow> meld list \<Rightarrow> py_error + meld list" where
  "potential_runs_loop [] potential_runs = Inr potential_runs"
| "potential_runs_loop ((color, tiles_of_color) # others) potential_runs =
     (let run_tiles = sort_key number_key (filter (\<lambda>tile. tile_number tile \<noteq> None) tiles_of_color)
      in case valid_windows (map (\<lambda>i. take 3 (drop i run_tiles)) [0 ..< length run_tiles - 2]) of
           Inl e \<Rightarrow> Inl e
         | Inr runs \<Rightarrow> potential_runs_loop others (potential_runs @ runs))"

definition get_potential_runs :: "tile list \<Rightarrow> py_error + meld list" where
  "get_potential_runs tiles = potential_runs_loop (group_tiles tile_color tiles) []"

section \<open>Search tree (RummikubMCTSAI)\<close>

text \<open>
  A node of the tree with its board, hand, the move that led to it, its children, \<open>visits\<close>,
  \<open>value\<close> and \<open>untried_moves\<close>. The parent of a node is the node that holds it among its
  children. Python's floats are taken as real numbers.
\<close>

datatype mcts_node =
  Node (node_board_tiles: board) (node_player_tiles: hand) (node_move: "(board \<times> hand) option")
       (children: "mcts_node list") (visits: nat) (node_value: real)
       (untried_moves: "(board \<times> hand) list")

text \<open>\<open>MCTSNode.__init__\<close>: \<open>untried_moves\<close> are the legal moves, \<open>get_all_moves\<close>.\<close>

definition new_node :: "board \<Rightarrow> hand \<Rightarrow> (board \<times> hand) option \<Rightarrow> py_error + mcts_node" where
  "new_node board_now player_tiles move =
     (case get_all_moves board_now player_tiles of
        Inl e \<Rightarrow> Inl e
      | Inr legal_moves \<Rightarrow> Inr (Node board_now player_tiles move [] 0 0 legal_moves))"

definition is_fully_expanded :: "mcts_node \<Rightarrow> bool" where
  "is_fully_expanded self = (length (untried_moves self) = 0)"

definition is_terminal :: "mcts_node \<Rightarrow> bool" where
  "is_terminal self = (length (node_player_tiles self) = 0 \<or> untried_moves self = [])"

definition prune_move :: "hand \<Rightarrow> py_error + bool" where
  "prune_move new_player_tiles =
     (let potential_groups = get_potential_groups new_player_tiles
      in case get_potential_runs new_player_tiles of
           Inl e \<Rightarrow> Inl e
         | Inr potential_runs \<Rightarrow> Inr (length potential_groups + length potential_runs < 2))"

text \<open>
  \<open>expand\<close>: the last untried move is popped; a move that is pruned attaches nothing.
  The result is the node after the call and whether a child was appended to its children.
\<close>

definition expand :: "mcts_node \<Rightarrow> py_error + (mcts_node \<times> bool)" where
  "expand self =
     (case self of Node b h mv cs v w untried \<Rightarrow>
        if untried = [] then Inr (self, False)
        else
          (let move = last untried; self1 = Node b h mv cs v w (butlast untried)
           in case prune_move (snd move) of
                Inl e \<Rightarrow> Inl e
              | Inr True \<Rightarrow> Inr (self1, False)
              | Inr False \<Rightarrow>
                  (case new_node (fst move) (snd move) (Some move) of
                     Inl e \<Rightarrow> Inl e
                   | Inr child_node \<Rightarrow>
                       Inr (Node b h mv (cs @ [child_node]) v w (butlast untried), True))))"

text \<open>The factor \<open>best_child\<close> works with, whatever factor it was called with.\<close>

definition effective_exploration_factor :: "mcts_node \<Rightarrow> real \<Rightarrow> real" where
  "effective_exploration_factor self exploration_factor =
     (if length (node_player_tiles self) \<le> 3 then 0.5
      else if length (node_player_tiles self) \<ge> 10 then 2.0
      else exploration_factor)"

text \<open>
  The key of \<open>max\<close>: the division raises \<open>ZeroDivisionError\<close> on an unvisited child,
  \<open>math.log\<close> raises \<open>ValueError\<close> on 0.
\<close>

definition ucb1 :: "mcts_node \<Rightarrow> real \<Rightarrow> mcts_node \<Rightarrow> py_error + real" where
  "ucb1 self exploration_factor node =
     (if visits node = 0 then Inl ZeroDivisionError
      else if visits self = 0 then Inl ValueError
      else Inr (node_value node / real (visits node)
                + exploration_factor * sqrt (2 * ln (real (visits self)) / real (visits node))))"

text \<open>\<open>max(children, key=...)\<close> keeps the first child whose key is largest.\<close>

fun max_by :: "('a \<Rightarrow> py_error + real) \<Rightarrow> 'a list \<Rightarrow> 'a \<Rightarrow> real \<Rightarrow> py_error + 'a" where
  "max_by key [] best best_key = Inr best"
| "max_by key (x # xs) best best_key =
     (case key x of
        Inl e \<Rightarrow> Inl e
      | Inr k \<Rightarrow> if k > best_key then max_by key xs x k else max_by key xs best best_key)"

definition best_child :: "mcts_node \<Rightarrow> real \<Rightarrow> py_error + mcts_node" where
  "best_child self exploration_factor =
     (let c = effective_exploration_factor self exploration_factor in
      case children self of
        [] \<Rightarrow> Inl ValueError
      | first # rest \<Rightarrow>
          (case ucb1 self c first of
             Inl e \<Rightarrow> Inl e
           | Inr k \<Rightarrow> max_by (ucb1 self c) rest first k))"

text \<open>
  \<open>self.visits += num_simulations; self.value += num_wins\<close> at one node.
\<close>

definition credit :: "real \<Rightarrow> nat \<Rightarrow> mcts_node \<Rightarrow> mcts_node" where
  "credit num_wins num_simulations self =
     (case self of Node b h mv cs v w untried \<Rightarrow>
        Node b h mv cs (v + num_simulations) (w + num_wins) untried)"

definition with_children :: "mcts_node \<Rightarrow> mcts_node list \<Rightarrow> mcts_node" where
  "with_children self cs' =
     (case self of Node b h mv cs v w untried \<Rightarrow> Node b h mv cs' v w untried)"

text \<open>
  A node of the tree is reached from the root by the positions of the children taken.
  \<open>node_at\<close> is the node at a path, \<open>replace_at\<close> puts a node there, and \<open>backpropagate\<close>
  credits the node at the path and every node above it up to the root.
\<close>

fun node_at :: "nat list \<Rightarrow> mcts_node \<Rightarrow> mcts_node" where
  "node_at [] self = self"
| "node_at (i # path) self = node_at path (children self ! i)"

fun replace_at :: "nat list \<Rightarrow> mcts_node \<Rightarrow> mcts_node \<Rightarrow> mcts_node" where
  "replace_at [] new self = new"
| "replace_at (i # path) new self =
     with_children self ((children self)[i := replace_at path new (children self ! i)])"

fun backpropagate :: "nat list \<Rightarrow> real \<Rightarrow> nat \<Rightarrow> mcts_node \<Rightarrow> mcts_node" where
  "backpropagate [] num_wins num_simulations self = credit num_wins num_simulations self"
| "backpropagate (i # path) num_wins num_simulations self =
     credit num_wins num_simulations
       (with_children self
          ((children self)[i := backpropagate path num_wins num_simulations (children self ! i)]))"

text \<open>The position of the first element of a list equal to \<open>x\<close>.\<close>

fun first_index :: "'a \<Rightarrow> 'a list \<Rightarrow> nat" where
  "first_index x [] = 0"
| "first_index x (y # ys) = (if x = y then 0 else Suc (first_index x ys))"

text \<open>
  The selection loop of \<open>AI_logic\<close>,
  \<open>while not node.is_terminal() and node.is_fully_expanded(): node = node.best_child()\<close>,
  returning the path from the root to the node it stops at. \<open>None\<close> stands for a loop that
  does not end.
\<close>

partial_function (option) select_path :: "mcts_node \<Rightarrow> nat list \<Rightarrow> (py_error + nat list) option" where
  "select_path node path =
     (if \<not> is_terminal node \<and> is_fully_expanded node then
        (case best_child node 1.4 of
           Inl e \<Rightarrow> Some (Inl e)
         | Inr c \<Rightarrow> select_path c (path @ [first_index c (children node)]))
      else Some (Inr path))"

text \<open>
  One iteration of the loop \<open>for _ in range(self.simulations)\<close>. What a rollout returns (or
  raises) depends on the random player and on the game manager; it is taken as given,
  \<open>rollout i\<close> for iteration \<open>i\<close>. A rollout is credited with
  \<open>NUM_SIMULATIONS_FOR_NODE = 8\<close> simulations.
\<close>

definition mcts_iteration ::
  "(nat \<Rightarrow> py_error + real) \<Rightarrow> nat \<Rightarrow> mcts_node \<Rightarrow> (py_error + mcts_node) option" where
  "mcts_iteration rollout i root_node =
     (case select_path root_node [] of
        None \<Rightarrow> None
      | Some (Inl e) \<Rightarrow> Some (Inl e)
      | Some (Inr path) \<Rightarrow>
          Some (let node = node_at path root_node in
                if \<not> is_terminal node then
                  (case expand node of
                     Inl e \<Rightarrow> Inl e
                   | Inr (expanded, attached) \<Rightarrow>
                       (let root1 = replace_at path expanded root_node in
                        if attached then
                          (case rollout i of
                             Inl e \<Rightarrow> Inl e
                           | Inr num_wins \<Rightarrow>
                               Inr (backpropagate (path @ [length (children expanded) - 1])
                                      num_wins 8 root1))
                        else Inr root1))
                else
                  (case rollout i of
                     Inl e \<Rightarrow> Inl e
                   | Inr num_wins \<Rightarrow> Inr (backpropagate path num_wins 8 root_node))))"

fun mcts_loop ::
  "(nat \<Rightarrow> py_error + real) \<Rightarrow> nat list \<Rightarrow> mcts_node \<Rightarrow> (py_error + mcts_node) option" where
  "mcts_loop rollout [] root_node = Some (Inr root_node)"
| "mcts_loop rollout (i # others) root_node =
     (case mcts_iteration rollout i root_node of
        None \<Rightarrow> None
      | Some (Inl e) \<Rightarrow> Some (Inl e)
      | Some (Inr root') \<Rightarrow> mcts_loop rollout others root')"

text \<open>
  The root after the loop of \<open>MCTSPlayer.AI_logic\<close>: both branches of the test on
  \<open>self.root_node\<close> build a new root for the board and the hand.
\<close>

definition mcts_search ::
  "(nat \<Rightarrow> py_error + real) \<Rightarrow> nat \<Rightarrow> board \<Rightarrow> hand \<Rightarrow> (py_error + mcts_node) option" where
  "mcts_search rollout simulations board_now player_tiles =
     (case new_node board_now player_tiles None of
        Inl e \<Rightarrow> Some (Inl e)
      | Inr root_node \<Rightarrow> mcts_loop rollout [0 ..< simulations] root_node)"

text \<open>The move of a child as \<open>AI_logic\<close> returns it.\<close>

definition move_of :: "mcts_node \<Rightarrow> ai_move" where
  "move_of node = (case node_move node of None \<Rightarrow> NoMove | Some (b, h) \<Rightarrow> BoardAndHand b h)"

definition mcts_AI_logic ::
  "(nat \<Rightarrow> py_error + real) \<Rightarrow> nat \<Rightarrow> board \<Rightarrow> hand \<Rightarrow> (py_error + ai_move) option" where
  "mcts_AI_logic rollout simulations board_now player_tiles =
     (case mcts_search rollout simulations board_now player_tiles of
        None \<Rightarrow> None
      | Some (Inl e) \<Rightarrow> Some (Inl e)
      | Some (Inr root_node) \<Rightarrow>
          if children root_node \<noteq> [] then
            (case best_child root_node 0 of
               Inl e \<Rightarrow> Some (Inl e)
             | Inr best \<Rightarrow> Some (Inr (move_of best)))
          else Some (Inr NoMove))"

section \<open>Notions used in the proofs about the greedy strategy\<close>

text \<open>Every meld of every candidate move, paired with its move, in the order of the scan.\<close>

definition move_groups :: "(board \<times> hand) list \<Rightarrow> ((board \<times> hand) \<times> meld) list" where
  "move_groups moves = concat (map (\<lambda>m. map (Pair m) (fst m)) moves)"

text \<open>One meld is at most another in the order (length, sum of the numbers).\<close>

definition dominated :: "meld \<Rightarrow> meld \<Rightarrow> bool" where
  "dominated g' g =
     (length g' < length g \<or> (length g' = length g \<and> group_sum g' \<le> group_sum g))"

text \<open>The record of the scan describes a largest meld among those scanned.\<close>

definition best_so_far :: "((board \<times> hand) \<times> meld) list \<Rightarrow> greedy_best \<Rightarrow> bool" where
  "best_so_far ps b =
     ((\<exists>m. best_move b = Some m \<and> (m, longest_group b) \<in> set ps)
      \<and> max_group_length b = int (length (longest_group b))
      \<and> max_tile_sum b = group_sum (longest_group b)
      \<and> list_all (\<lambda>(m', g'). dominated g' (longest_group b)) ps)"

section \<open>Notions used in the proofs about the search tree\<close>

text \<open>The average value of a node, \<open>value / visits\<close>.\<close>

definition average :: "mcts_node \<Rightarrow> real" where
  "average node = node_value node / real (visits node)"

text \<open>
  Every child of the root has been credited with one rollout, and a root with children has
  been credited as well.
\<close>

definition children_rolled_out :: "mcts_node \<Rightarrow> bool" where
  "children_rolled_out root_node =
     (list_all (\<lambda>c. visits c = 8) (children root_node)
      \<and> (children root_node = [] \<or> 0 < visits root_node))"

text \<open>A hand of ten tiles with three runs, and the three moves that play one of them.\<close>

definition hand_10 :: hand where
  "hand_10 = [(''red'', Some 1, False), (''red'', Some 2, False), (''red'', Some 3, False),
              (''blue'', Some 5, False), (''blue'', Some 6, False), (''blue'', Some 7, False),
              (''green'', Some 9, False), (''green'', Some 10, False), (''green'', Some 11, False),
              (''yellow'', Some 13, False)]"

definition move_red :: "board \<times> hand" where
  "move_red = ([[(''red'', Some 1, False), (''red'', Some 2, False), (''red'', Some 3, False)]],
               [(''blue'', Some 5, False), (''blue'', Some 6, False), (''blue'', Some 7, False),
                (''green'', Some 9, False), (''green'', Some 10, False), (''green'', Some 11, False),
                (''yellow'', Some 13, False)])"

definition move_blue :: "board \<times> hand" where
  "move_blue = ([[(''blue'', Some 5, False), (''blue'', Some 6, False), (''blue'', Some 7, False)]],
               [(''red'', Some 1, False), (''red'', Some 2, False), (''red'', Some 3, False),
                (''green'', Some 9, False), (''green'', Some 10, False), (''green'', Some 11, False),
                (''yellow'', Some 13, False)])"

definition move_green :: "board \<times> hand" where
  "move_green = ([[(''green'', Some 9, False), (''green'', Some 10, False), (''green'', Some 11, False)]],
               [(''red'', Some 1, False), (''red'', Some 2, False), (''red'', Some 3, False),
                (''blue'', Some 5, False), (''blue'', Some 6, False), (''blue'', Some 7, False),
                (''yellow'', Some 13, False)])"

section \<open>A dealt game used as an example\<close>

text \<open>
  An outcome of the shuffle: the pool as \<open>random.shuffle\<close> may leave it, written as the
  tiles that stay in the pool followed by the two hands in the order they are popped.
\<close>

definition example_hand_0 :: hand where
  "example_hand_0 =
     [(''red'', Some 5, False), (''red'', Some 6, False), (''red'', Some 7, False),
      (''blue'', Some 4, False), (''blue'', Some 5, False), (''blue'', Some 6, False),
      (''joker'', None, True), (''joker'', None, True),
      (''green'', Some 1, False), (''green'', Some 3, False), (''green'', Some 9, False),
      (''yellow'', Some 1, False), (''yellow'', Some 11, False), (''yellow'', Some 13, False)]"

definition example_hand_1 :: hand where
  "example_hand_1 =
     concat (map (\<lambda>number. [(''yellow'', Some number, False), (''yellow'', Some number, False)])
                 [2 ..< 9])"

definition example_rest :: "tile list" where
  "example_rest =
     concat (map (\<lambda>(color, numbers). map (\<lambda>number. (color, Some number, False)) numbers)
       [(''green'', [1, 2, 2, 3, 4, 4, 5, 5, 6, 6, 7, 7, 8, 8, 9, 10, 10, 11, 11, 12, 12, 13, 13]),
        (''blue'', [1, 1, 2, 2, 3, 3, 4, 5, 6, 7, 7, 8, 8, 9, 9, 10, 10, 11, 11, 12, 12, 13, 13]),
        (''yellow'', [1, 9, 9, 10, 10, 11, 12, 12, 13]),
        (''red'', [1, 1, 2, 2, 3, 3, 4, 4, 5, 6, 7, 8, 8, 9, 9, 10, 10, 11, 11, 12, 12, 13, 13])])"

definition example_shuffle :: "tile list" where
  "example_shuffle = example_rest @ rev example_hand_1 @ rev example_hand_0"

text \<open>One list is a rearrangement of the other.\<close>

fun is_permutation :: "'a list \<Rightarrow> 'a list \<Rightarrow> bool" where
  "is_permutation [] ys = (ys = [])"
| "is_permutation (x # xs) ys = (x \<in> set ys \<and> is_permutation xs (remove1 x ys))"

section \<open>Notions used in the proofs about the initial meld\<close>







lemmas tile_simps = tile_color_def tile_number_def tile_is_joker_def

section \<open>Validator: evaluation at concrete melds\<close>

text \<open>With at least one numbered tile in the list, \<open>is_valid_run\<close> returns.\<close>

lemma is_valid_run_returns:
  "tile_numbers tiles \<noteq> [] \<Longrightarrow> \<exists>b. is_valid_run tiles = Inr b"
  by (cases "tile_numbers tiles") (auto simp: is_valid_run_def Let_def)

text \<open>
  C1. \<open>is_valid_run\<close> on four melds. A run red 1, 2, 3 extended by a joker of the pool is
  rejected, because the colour \<open>"joker"\<close> counts as a second colour. With a \<open>"purple"\<close>
  joker, red 1, joker, red 5 is accepted although the gap needs three jokers, and
  red 1, red 3, red 4 with one joker is rejected although the joker fills the gap. The
  numbers are not sorted: red 3, 2, 1 is rejected.
\<close>

theorem is_valid_run_failing_inputs:
  "is_valid_run [(''red'', Some 1, False), (''red'', Some 2, False), (''red'', Some 3, False),
                 (''joker'', None, True)] = Inr False
   \<and> is_valid_run [(''red'', Some 1, False), (''purple'', None, True), (''red'', Some 5, False)]
       = Inr True
   \<and> is_valid_run [(''red'', Some 1, False), (''red'', Some 3, False), (''red'', Some 4, False),
                   (''purple'', None, True)] = Inr False
   \<and> is_valid_run [(''red'', Some 3, False), (''red'', Some 2, False), (''red'', Some 1, False)]
       = Inr False"
  by (simp add: is_valid_run_def tile_simps)

text \<open>
  C2. \<open>is_valid_group\<close> rejects two tiles of value 5 completed by a joker, whichever colour
  the joker carries: the joker's \<open>None\<close> is a second element of \<open>numbers\<close>.
\<close>

theorem is_valid_group_failing_inputs:
  "is_valid_group [(''red'', Some 5, False), (''blue'', Some 5, False), (''joker'', None, True)]
     = False
   \<and> is_valid_group [(''red'', Some 5, False), (''blue'', Some 5, False), (''purple'', None, True)]
       = False"
  by (simp add: is_valid_group_def tile_simps)

text \<open>
  C4. On three \<open>"purple"\<close> jokers \<open>is_valid_run\<close> passes the length check with an empty
  \<open>numbers\<close> and raises \<open>IndexError\<close> at \<open>numbers[0]\<close>.
\<close>

theorem is_valid_run_all_jokers_raises:
  "is_valid_run [(''purple'', None, True), (''purple'', None, True), (''purple'', None, True)]
     = Inl IndexError"
  by (simp add: is_valid_run_def tile_simps)

section \<open>Joker valuator: the value by cases\<close>

lemma first_gap_at:
  "i + 1 < length s \<Longrightarrow> s ! (i + 1) - s ! i > 1 \<Longrightarrow> (\<forall>j<i. s ! (j + 1) - s ! j \<le> 1)
   \<Longrightarrow> first_gap s = Some (s ! i + 1)"
proof (induction s arbitrary: i rule: first_gap.induct)
  case (1 a b rest)
  show ?case
  proof (cases i)
    case 0
    with "1.prems" show ?thesis by simp
  next
    case (Suc k)
    from "1.prems"(3) Suc have nogap: "\<not> b - a > 1" by force
    from "1.prems" Suc have "first_gap (b # rest) = Some ((b # rest) ! k + 1)"
      by (intro "1.IH"[OF nogap]) auto
    with nogap Suc show ?thesis by simp
  qed
qed simp_all

lemma first_gap_none:
  "(\<forall>j. j + 1 < length s \<longrightarrow> s ! (j + 1) - s ! j \<le> 1) \<Longrightarrow> first_gap s = None"
proof (induction s rule: first_gap.induct)
  case (1 a b rest)
  from "1.prems"[rule_format, of 0] have nogap: "\<not> b - a > 1" by simp
  have "\<forall>j. j + 1 < length (b # rest) \<longrightarrow> (b # rest) ! (j + 1) - (b # rest) ! j \<le> 1"
    using "1.prems"[rule_format, of "Suc j" for j] by simp
  with "1.IH"[OF nogap] nogap show ?case by simp
qed simp_all

lemma sorted_hd_Min: "sorted s \<Longrightarrow> s \<noteq> [] \<Longrightarrow> hd s = Min (set s)"
  by (cases s) (auto intro!: Min_eqI [symmetric])

lemma sorted_last_Max: "sorted s \<Longrightarrow> s \<noteq> [] \<Longrightarrow> last s = Max (set s)"
proof (induction s)
  case (Cons a s)
  show ?case
  proof (cases "s = []")
    case False
    with Cons have l: "last s = Max (set s)" by simp
    from Cons.prems have le: "\<forall>y\<in>set s. a \<le> y" by simp
    from False obtain y where y: "y \<in> set s" by (cases s) auto
    then have "y \<le> Max (set s)" by simp
    moreover from le y have "a \<le> y" by blast
    ultimately have "a \<le> Max (set s)" by (rule order_trans [rotated])
    with l False show ?thesis by (simp add: max_def)
  qed simp
qed simp

text \<open>
  A list without any numbered tile, other than a single tile, has no shared value, minimum
  or maximum; there \<open>determine_joker_value\<close> raises.
\<close>

lemma determine_joker_value_no_numbers:
  "length M \<noteq> 1 \<Longrightarrow> tile_numbers M = [] \<Longrightarrow> determine_joker_value M = Inl IndexError"
  by (cases M) (simp_all add: determine_joker_value_def)

text \<open>
  C5. \<open>determine_joker_value\<close> returns 0 on a single tile; otherwise the shared value \<open>v\<close>
  when the numbers present are all \<open>v\<close>; otherwise, with the numbers sorted, the value
  after the first index \<open>i\<close> whose successor is more than 1 away; and when no such index
  exists, the minimum minus 1 if the first tile of the meld is a joker, else the maximum
  plus 1.
\<close>

theorem determine_joker_value_cases:
  "(length M = 1 \<longrightarrow> determine_joker_value M = Inr 0)
   \<and> (length M \<noteq> 1 \<and> set (tile_numbers M) = {v} \<longrightarrow> determine_joker_value M = Inr v)
   \<and> (length M \<noteq> 1 \<and> card (set (tile_numbers M)) > 1
        \<and> i + 1 < length (tile_numbers M)
        \<and> sort (tile_numbers M) ! (i + 1) - sort (tile_numbers M) ! i > 1
        \<and> (\<forall>j<i. sort (tile_numbers M) ! (j + 1) - sort (tile_numbers M) ! j \<le> 1)
        \<longrightarrow> determine_joker_value M = Inr (sort (tile_numbers M) ! i + 1))
   \<and> (length M \<noteq> 1 \<and> card (set (tile_numbers M)) > 1
        \<and> (\<forall>j. j + 1 < length (tile_numbers M)
                 \<longrightarrow> sort (tile_numbers M) ! (j + 1) - sort (tile_numbers M) ! j \<le> 1)
        \<longrightarrow> determine_joker_value M
              = Inr (if tile_is_joker (hd M) then Min (set (tile_numbers M)) - 1
                     else Max (set (tile_numbers M)) + 1))"
proof (intro conjI impI)
  assume "length M = 1"
  then show "determine_joker_value M = Inr 0" by (simp add: determine_joker_value_def)
next
  assume a: "length M \<noteq> 1 \<and> set (tile_numbers M) = {v}"
  then obtain n ns where ns: "tile_numbers M = n # ns" by (cases "tile_numbers M") auto
  with a have "n = v" by auto
  with ns have h: "(case tile_numbers M of [] \<Rightarrow> Inl IndexError | n # _ \<Rightarrow> Inr n) = Inr v"
    by simp
  from a have c: "card (set (tile_numbers M)) = 1" by simp
  from a have l: "length M \<noteq> 1" by simp
  show "determine_joker_value M = Inr v"
    unfolding determine_joker_value_def Let_def
    by (subst if_not_P, fact l, subst if_P, fact c, fact h)
next
  let ?s = "sort (tile_numbers M)"
  assume a: "length M \<noteq> 1 \<and> card (set (tile_numbers M)) > 1
        \<and> i + 1 < length (tile_numbers M) \<and> ?s ! (i + 1) - ?s ! i > 1
        \<and> (\<forall>j<i. ?s ! (j + 1) - ?s ! j \<le> 1)"
  then have "first_gap ?s = Some (?s ! i + 1)" by (intro first_gap_at) auto
  with a show "determine_joker_value M = Inr (?s ! i + 1)"
    by (simp add: determine_joker_value_def Let_def)
next
  let ?ns = "tile_numbers M"
  let ?s = "sort ?ns"
  assume a: "length M \<noteq> 1 \<and> card (set ?ns) > 1
        \<and> (\<forall>j. j + 1 < length ?ns \<longrightarrow> ?s ! (j + 1) - ?s ! j \<le> 1)"
  then have g: "first_gap ?s = None" by (intro first_gap_none) auto
  from a have ne: "?ns \<noteq> []" by auto
  then have M: "M \<noteq> []" by auto
  from ne have sne: "?s \<noteq> []" by (metis length_0_conv length_sort)
  have mn: "hd ?s = Min (set ?ns)" using sorted_hd_Min[OF _ sne] by simp
  have mx: "last ?s = Max (set ?ns)" using sorted_last_Max[OF _ sne] by simp
  from a have c: "card (set ?ns) \<noteq> 1" by simp
  from a have l: "length M \<noteq> 1" by simp
  have "determine_joker_value M
          = (case M of [] \<Rightarrow> Inl IndexError
             | t # _ \<Rightarrow> (case ?s of [] \<Rightarrow> Inl IndexError
                         | n # _ \<Rightarrow> if tile_is_joker t then Inr (n - 1)
                                    else Inr (last ?s + 1)))"
    unfolding determine_joker_value_def Let_def
    by (subst if_not_P, fact l, subst if_not_P, fact c, subst g, simp only: option.case)
  also have "\<dots> = (if tile_is_joker (hd M) then Inr (hd ?s - 1) else Inr (last ?s + 1))"
    using M sne by (simp only: list.case_eq_if if_False)
  also have "\<dots> = Inr (if tile_is_joker (hd M) then Min (set ?ns) - 1 else Max (set ?ns) + 1)"
    by (simp only: mn mx if_distrib [of Inr])
  finally show "determine_joker_value M
          = Inr (if tile_is_joker (hd M) then Min (set ?ns) - 1 else Max (set ?ns) + 1)" .
qed

theorem determine_joker_value_cases_witness:
  "determine_joker_value [(''joker'', None, True)] = Inr 0
   \<and> determine_joker_value
        [(''red'', Some 5, False), (''blue'', Some 5, False), (''joker'', None, True)] = Inr 5
   \<and> determine_joker_value
        [(''red'', Some 3, False), (''joker'', None, True), (''red'', Some 5, False)] = Inr 4
   \<and> determine_joker_value
        [(''joker'', None, True), (''red'', Some 4, False), (''red'', Some 5, False)] = Inr 3
   \<and> determine_joker_value
        [(''red'', Some 4, False), (''red'', Some 5, False), (''joker'', None, True)] = Inr 6"
  using determine_joker_value_cases [of "[(''joker'', None, True)]"]
    determine_joker_value_cases
      [of "[(''red'', Some 5, False), (''blue'', Some 5, False), (''joker'', None, True)]" 5]
    determine_joker_value_cases
      [of "[(''red'', Some 3, False), (''joker'', None, True), (''red'', Some 5, False)]" _ 0]
    determine_joker_value_cases
      [of "[(''joker'', None, True), (''red'', Some 4, False), (''red'', Some 5, False)]"]
    determine_joker_value_cases
      [of "[(''red'', Some 4, False), (''red'', Some 5, False), (''joker'', None, True)]"]
  by (simp add: tile_simps)

section \<open>Rollout simulator: the manager after the constructor\<close>

text \<open>
  C9. Constructing the \<open>Simulator\<close> of a rollout already changes the manager the node was
  given: it is the other player's turn, the players are a new greedy and a new random
  player, and the board is the node's board.
\<close>

theorem prepare_simulator_changes_manager:
  "current_player_idx (prepare_simulator b h gm) \<noteq> current_player_idx gm
   \<and> players (prepare_simulator b h gm)
       = [\<lparr>strategy = Greedy, has_made_initial_meld = True\<rparr>,
          \<lparr>strategy = Random, has_made_initial_meld = True\<rparr>]
   \<and> board_tiles (prepare_simulator b h gm) = b
   \<and> prepare_simulator b h gm \<noteq> gm"
proof -
  have idx: "current_player_idx (prepare_simulator b h gm) \<noteq> current_player_idx gm"
    unfolding prepare_simulator_def by simp presburger
  then have "prepare_simulator b h gm \<noteq> gm" by auto
  with idx show ?thesis by (simp add: prepare_simulator_def)
qed

section \<open>Turn protocol: moves that are not checked\<close>

text \<open>
  C10. \<open>get_move\<close> hands a move of the shape \<open>(board, hand)\<close> on as it is, whatever tiles
  it holds; nothing is compared with the player's hand and nothing is raised. The greedy
  strategy returns this shape: with the run red 1 to 4 on the board and blue 9, 10, 11 in
  the hand it answers with the board's own run as the only meld and an empty hand, and
  \<open>get_move\<close> reports success.
\<close>

theorem get_move_pair_unchecked:
  "get_move (\<lambda>b h. Inr (BoardAndHand new_board new_hand)) board_now hand_now
     = Inr ((True, new_board, new_hand), (board_now, hand_now))
   \<and> get_move greedy_AI_logic
        [[(''red'', Some 1, False), (''red'', Some 2, False), (''red'', Some 3, False),
          (''red'', Some 4, False)]]
        [(''blue'', Some 9, False), (''blue'', Some 10, False), (''blue'', Some 11, False)]
       = Inr ((True,
               [[(''red'', Some 1, False), (''red'', Some 2, False), (''red'', Some 3, False),
                 (''red'', Some 4, False)]],
               []),
              ([[(''red'', Some 1, False), (''red'', Some 2, False), (''red'', Some 3, False),
                 (''red'', Some 4, False)]],
               [(''blue'', Some 9, False), (''blue'', Some 10, False),
                (''blue'', Some 11, False)]))"
  by (simp add: get_move_def) code_simp

section \<open>Greedy strategy: the meld selected\<close>

lemma greedy_scan_flat:
  "fold (\<lambda>move b. fold (greedy_consider move) (fst move) b) moves b0
     = fold (\<lambda>(m, g). greedy_consider m g) (move_groups moves) b0"
proof (induction moves arbitrary: b0)
  case (Cons m moves)
  have "fold (\<lambda>(m, g). greedy_consider m g) (map (Pair m) (fst m)) b0
          = fold (greedy_consider m) (fst m) b0"
    by (simp add: fold_map comp_def)
  with Cons show ?case by (simp add: move_groups_def)
qed (simp add: move_groups_def)

lemma dominated_trans: "dominated a b \<Longrightarrow> dominated b c \<Longrightarrow> dominated a c"
  by (auto simp: dominated_def)

lemma best_so_far_step:
  assumes "best_so_far ps b"
  shows "best_so_far (ps @ [(m, g)]) (greedy_consider m g b)"
proof (cases "int (length g) > max_group_length b
              \<or> (int (length g) = max_group_length b \<and> group_sum g > max_tile_sum b)")
  case True
  with assms have "dominated (longest_group b) g"
    by (auto simp: best_so_far_def dominated_def)
  with assms have "list_all (\<lambda>(m', g'). dominated g' g) ps"
    by (auto simp: best_so_far_def list_all_iff intro: dominated_trans)
  with True show ?thesis
    by (simp add: best_so_far_def greedy_consider_def Let_def dominated_def)
next
  case False
  with assms have "dominated g (longest_group b)"
    by (auto simp: best_so_far_def dominated_def)
  with False assms show ?thesis
    by (auto simp: best_so_far_def greedy_consider_def Let_def)
qed

lemma best_so_far_first:
  "best_so_far [(m, g)]
     (greedy_consider m g
        \<lparr>best_move = None, longest_group = [], max_group_length = - 1, max_tile_sum = - 1\<rparr>)"
  by (simp add: best_so_far_def greedy_consider_def Let_def dominated_def)

lemma best_so_far_fold:
  "best_so_far ps b \<Longrightarrow> best_so_far (ps @ qs) (fold (\<lambda>(m, g). greedy_consider m g) qs b)"
proof (induction qs arbitrary: ps b)
  case (Cons q qs)
  obtain m g where q: "q = (m, g)" by (cases q)
  from Cons.prems have "best_so_far (ps @ [(m, g)]) (greedy_consider m g b)"
    by (rule best_so_far_step)
  from Cons.IH[OF this] q show ?case by simp
qed simp

lemma greedy_scan_best:
  assumes "move_groups moves \<noteq> []"
  shows "best_so_far (move_groups moves) (greedy_scan moves)"
proof -
  from assms obtain m g qs where ps: "move_groups moves = (m, g) # qs"
    by (cases "move_groups moves") auto
  have "greedy_scan moves
          = fold (\<lambda>(m, g). greedy_consider m g) qs
              (greedy_consider m g
                 \<lparr>best_move = None, longest_group = [], max_group_length = - 1,
                  max_tile_sum = - 1\<rparr>)"
    by (simp add: greedy_scan_def greedy_scan_flat ps)
  with best_so_far_fold[OF best_so_far_first, of m g qs] ps show ?thesis by simp
qed

lemma try_insert_boards:
  assumes "try_insert bd hnd i t ng st = Inr st'" "\<forall>m\<in>set (fst st). fst m \<noteq> []"
  shows "\<forall>m\<in>set (fst st'). fst m \<noteq> []"
  using assms
  by (auto simp: try_insert_def Let_def split: sum.splits bool.splits if_splits)

lemma try_all_boards:
  "try_all bd hnd xs st = Inr st' \<Longrightarrow> \<forall>m\<in>set (fst st). fst m \<noteq> []
   \<Longrightarrow> \<forall>m\<in>set (fst st'). fst m \<noteq> []"
proof (induction xs arbitrary: st)
  case (Cons x xs)
  obtain i t ng where x: "x = (i, t, ng)" by (cases x)
  from Cons.prems(1) x obtain st1 where
    s1: "try_insert bd hnd i t ng st = Inr st1" and s2: "try_all bd hnd xs st1 = Inr st'"
    by (auto split: sum.splits)
  from try_insert_boards[OF s1 Cons.prems(2)] Cons.IH[OF s2] show ?case by blast
qed simp

lemma get_all_moves_boards:
  assumes "get_all_moves bd hnd = Inr moves"
  shows "\<forall>m\<in>set moves. fst m \<noteq> []"
proof -
  from assms obtain bm where bm: "get_all_moves_from_board bd hnd = Inr bm"
    by (auto simp: get_all_moves_def Let_def split: sum.splits)
  then have "\<forall>m\<in>set bm. fst m \<noteq> []"
    by (auto simp: get_all_moves_from_board_def split: sum.splits dest!: try_all_boards)
  with assms bm show ?thesis
    by (auto simp: get_all_moves_def Let_def)
qed

lemma move_groups_iff: "(m, g) \<in> set (move_groups moves) \<longleftrightarrow> m \<in> set moves \<and> g \<in> set (fst m)"
  by (auto simp: move_groups_def)

text \<open>
  C7 (as amended). Whenever there is a candidate move, the greedy strategy answers with one
  meld \<open>g\<close> of one candidate move \<open>m\<close> and the hand of \<open>m\<close>, and no meld of any candidate move
  is longer than \<open>g\<close> or, at the same length, has a larger sum of numbers (a joker adds
  nothing to the sum). For the hand red 5, 6, 7, 8, blue 5, green 5 and an empty board the
  answer is the run red 5 to 8.
\<close>

theorem greedy_AI_logic_longest_then_sum:
  "(get_all_moves board_now hand_now = Inr moves \<and> moves \<noteq> [] \<longrightarrow>
      (\<exists>m g. greedy_AI_logic board_now hand_now = Inr (BoardAndHand [g] (snd m))
             \<and> m \<in> set moves \<and> g \<in> set (fst m)
             \<and> (\<forall>m'\<in>set moves. \<forall>g'\<in>set (fst m').
                   length g' < length g
                   \<or> (length g' = length g \<and> group_sum g' \<le> group_sum g))))
   \<and> greedy_AI_logic []
        [(''red'', Some 5, False), (''red'', Some 6, False), (''red'', Some 7, False),
         (''red'', Some 8, False), (''blue'', Some 5, False), (''green'', Some 5, False)]
       = Inr (BoardAndHand
                [[(''red'', Some 5, False), (''red'', Some 6, False), (''red'', Some 7, False),
                  (''red'', Some 8, False)]]
                [(''blue'', Some 5, False), (''green'', Some 5, False)])"
proof (intro conjI impI)
  assume a: "get_all_moves board_now hand_now = Inr moves \<and> moves \<noteq> []"
  then obtain m0 where "m0 \<in> set moves" by (cases moves) auto
  moreover from a have ne: "\<forall>m\<in>set moves. fst m \<noteq> []" by (auto dest: get_all_moves_boards)
  ultimately obtain g0 where "(m0, g0) \<in> set (move_groups moves)"
    unfolding move_groups_iff by (cases "fst m0") auto
  then have "move_groups moves \<noteq> []" by auto
  from greedy_scan_best[OF this] obtain m where
    m: "best_move (greedy_scan moves) = Some m"
       "(m, longest_group (greedy_scan moves)) \<in> set (move_groups moves)"
    and dom: "list_all (\<lambda>(m', g'). dominated g' (longest_group (greedy_scan moves)))
                (move_groups moves)"
    by (auto simp: best_so_far_def)
  let ?g = "longest_group (greedy_scan moves)"
  from a m have "greedy_AI_logic board_now hand_now = Inr (BoardAndHand [?g] (snd m))"
    by (simp add: greedy_AI_logic_def Let_def)
  moreover from m have "m \<in> set moves \<and> ?g \<in> set (fst m)" by (simp add: move_groups_iff)
  moreover have "\<forall>m'\<in>set moves. \<forall>g'\<in>set (fst m').
                   length g' < length ?g \<or> (length g' = length ?g \<and> group_sum g' \<le> group_sum ?g)"
  proof (intro ballI)
    fix m' g' assume "m' \<in> set moves" "g' \<in> set (fst m')"
    then have "(m', g') \<in> set (move_groups moves)" by (simp add: move_groups_iff)
    with dom have "dominated g' ?g" by (auto simp: list_all_iff)
    then show "length g' < length ?g \<or> (length g' = length ?g \<and> group_sum g' \<le> group_sum ?g)"
      by (simp add: dominated_def)
  qed
  ultimately show "\<exists>m g. greedy_AI_logic board_now hand_now = Inr (BoardAndHand [g] (snd m))
             \<and> m \<in> set moves \<and> g \<in> set (fst m)
             \<and> (\<forall>m'\<in>set moves. \<forall>g'\<in>set (fst m').
                   length g' < length g
                   \<or> (length g' = length g \<and> group_sum g' \<le> group_sum g))"
    by blast
next
  show "greedy_AI_logic []
        [(''red'', Some 5, False), (''red'', Some 6, False), (''red'', Some 7, False),
         (''red'', Some 8, False), (''blue'', Some 5, False), (''green'', Some 5, False)]
       = Inr (BoardAndHand
                [[(''red'', Some 5, False), (''red'', Some 6, False), (''red'', Some 7, False),
                  (''red'', Some 8, False)]]
                [(''blue'', Some 5, False), (''green'', Some 5, False)])"
    by code_simp
qed

theorem greedy_AI_logic_longest_then_sum_witness:
  "get_all_moves []
     [(''red'', Some 5, False), (''red'', Some 6, False), (''red'', Some 7, False),
      (''red'', Some 8, False), (''blue'', Some 5, False), (''green'', Some 5, False)]
     = Inr [([[(''red'', Some 5, False), (''red'', Some 6, False), (''red'', Some 7, False),
               (''red'', Some 8, False)]],
             [(''blue'', Some 5, False), (''green'', Some 5, False)]),
            ([[(''red'', Some 5, False), (''blue'', Some 5, False), (''green'', Some 5, False)]],
             [(''red'', Some 6, False), (''red'', Some 7, False), (''red'', Some 8, False)])]
   \<and> (\<exists>(m :: board \<times> hand) g. greedy_AI_logic []
               [(''red'', Some 5, False), (''red'', Some 6, False), (''red'', Some 7, False),
                (''red'', Some 8, False), (''blue'', Some 5, False), (''green'', Some 5, False)]
              = Inr (BoardAndHand [g] (snd m))
            \<and> length g = 4 \<and> group_sum g = 26)"
proof -
  let ?h = "[(''red'', Some 5, False), (''red'', Some 6, False), (''red'', Some 7, False),
      (''red'', Some 8, False), (''blue'', Some 5, False), (''green'', Some 5, False)] :: hand"
  let ?run = "[(''red'', Some 5, False), (''red'', Some 6, False), (''red'', Some 7, False),
               (''red'', Some 8, False)] :: meld"
  let ?m1 = "([?run], [(''blue'', Some 5, False), (''green'', Some 5, False)]) :: board \<times> hand"
  let ?m2 = "([[(''red'', Some 5, False), (''blue'', Some 5, False), (''green'', Some 5, False)]],
             [(''red'', Some 6, False), (''red'', Some 7, False), (''red'', Some 8, False)])
            :: board \<times> hand"
  have moves: "get_all_moves [] ?h = Inr [?m1, ?m2]" by code_simp
  have ne: "[?m1, ?m2] \<noteq> []" by simp
  note ex = greedy_AI_logic_longest_then_sum
              [of "[]" ?h "[?m1, ?m2]", THEN conjunct1, rule_format, OF conjI [OF moves ne]]
  from ex obtain m g where
    r: "greedy_AI_logic [] ?h = Inr (BoardAndHand [g] (snd m))"
    and g: "m \<in> set [?m1, ?m2]" "g \<in> set (fst m)"
    and best: "\<forall>m'\<in>set [?m1, ?m2]. \<forall>g'\<in>set (fst m').
                 length g' < length g \<or> (length g' = length g \<and> group_sum g' \<le> group_sum g)"
    by (elim exE conjE) (rule that)
  from best have "length ?run < length g \<or> (length ?run = length g \<and> group_sum ?run \<le> group_sum g)"
    by simp
  with g have "g = ?run" by auto
  then have lg: "length g = 4 \<and> group_sum g = 26" by (simp add: group_sum_def tile_simps)
  have "\<exists>(m :: board \<times> hand) g. greedy_AI_logic [] ?h = Inr (BoardAndHand [g] (snd m))
               \<and> length g = 4 \<and> group_sum g = 26"
    by (rule exI [of _ m], rule exI [of _ g], rule conjI [OF r lg])
  with moves show ?thesis by (rule conjI)
qed

text \<open>
  C7 (as stated). With a joker meld on the board the selected meld is not the one with the
  largest joker-resolved sum: the board holds joker, red 12, red 13 (36 points with the
  joker resolved to 11) and the hand blue 9, 10, 11 (30 points); the only candidate move
  holds both melds, both of length 3, and the greedy strategy selects the blue run.
\<close>

theorem greedy_AI_logic_joker_counterexample:
  "get_all_moves
     [[(''joker'', None, True), (''red'', Some 12, False), (''red'', Some 13, False)]]
     [(''blue'', Some 9, False), (''blue'', Some 10, False), (''blue'', Some 11, False)]
     = Inr [([[(''joker'', None, True), (''red'', Some 12, False), (''red'', Some 13, False)],
              [(''blue'', Some 9, False), (''blue'', Some 10, False), (''blue'', Some 11, False)]],
             [])]
   \<and> greedy_AI_logic
       [[(''joker'', None, True), (''red'', Some 12, False), (''red'', Some 13, False)]]
       [(''blue'', Some 9, False), (''blue'', Some 10, False), (''blue'', Some 11, False)]
       = Inr (BoardAndHand
                [[(''blue'', Some 9, False), (''blue'', Some 10, False),
                  (''blue'', Some 11, False)]] [])
   \<and> calculate_points
       [(''blue'', Some 9, False), (''blue'', Some 10, False), (''blue'', Some 11, False)]
       = Inr 30
   \<and> calculate_points
       [(''joker'', None, True), (''red'', Some 12, False), (''red'', Some 13, False)]
       = Inr 36"
  by code_simp

section \<open>Search tree: the final choice of \<open>AI_logic\<close>\<close>

lemma max_by_spec:
  assumes "\<forall>x\<in>set xs. key x = Inr (k x)"
  shows "\<exists>m. max_by key xs best (k best) = Inr m \<and> m \<in> set (best # xs)
             \<and> (\<forall>x\<in>set (best # xs). k x \<le> k m)"
  using assms
proof (induction xs arbitrary: best)
  case (Cons x xs)
  then have kx: "key x = Inr (k x)" and rest: "\<forall>y\<in>set xs. key y = Inr (k y)" by simp_all
  show ?case
  proof (cases "k x > k best")
    case True
    from Cons.IH[OF rest, of x] obtain m where
      m: "max_by key xs x (k x) = Inr m" "m \<in> set (x # xs)" "\<forall>y\<in>set (x # xs). k y \<le> k m"
      by blast
    from m(3) True have "k best \<le> k m" by force
    with m kx True show ?thesis by auto
  next
    case False
    from Cons.IH[OF rest, of best] obtain m where
      m: "max_by key xs best (k best) = Inr m" "m \<in> set (best # xs)"
         "\<forall>y\<in>set (best # xs). k y \<le> k m"
      by blast
    from m(3) False have "k x \<le> k m" by force
    with m kx False show ?thesis by auto
  qed
qed simp

lemma best_child_maximises_score:
  assumes ch: "children self \<noteq> []" and v: "visits self > 0"
    and cv: "\<forall>c\<in>set (children self). visits c > 0"
  shows "\<exists>c. best_child self f = Inr c \<and> c \<in> set (children self)
           \<and> (\<forall>c'\<in>set (children self).
                 average c' + effective_exploration_factor self f
                               * sqrt (2 * ln (real (visits self)) / real (visits c'))
                 \<le> average c + effective_exploration_factor self f
                               * sqrt (2 * ln (real (visits self)) / real (visits c)))"
proof -
  let ?e = "effective_exploration_factor self f"
  let ?k = "\<lambda>c. average c + ?e * sqrt (2 * ln (real (visits self)) / real (visits c))"
  from ch obtain first rest where fr: "children self = first # rest"
    by (cases "children self") auto
  have key: "\<forall>c\<in>set (children self). ucb1 self ?e c = Inr (?k c)"
    using v cv by (auto simp: ucb1_def average_def)
  with fr have "\<forall>c\<in>set rest. ucb1 self ?e c = Inr (?k c)" by simp
  from max_by_spec[OF this, of first] obtain m where
    m: "max_by (ucb1 self ?e) rest first (?k first) = Inr m" "m \<in> set (first # rest)"
       "\<forall>x\<in>set (first # rest). ?k x \<le> ?k m"
    by blast
  from key fr have "ucb1 self ?e first = Inr (?k first)" by simp
  with m fr have "best_child self f = Inr m" by (simp add: best_child_def Let_def)
  with m fr show ?thesis by auto
qed

text \<open>
  On a visited root whose children are all visited, \<open>best_child\<close> called with the factor 0
  returns a child of largest average when the hand has between 4 and 9 tiles (the factor 0
  is then at work) or when all children have the same number of visits (the bonus is then
  the same for all of them).
\<close>

lemma best_child_exploitation:
  "children self \<noteq> [] \<and> visits self > 0 \<and> (\<forall>c\<in>set (children self). visits c > 0)
   \<and> ((3 < length (node_player_tiles self) \<and> length (node_player_tiles self) < 10)
       \<or> (\<forall>c\<in>set (children self). visits c = visits (hd (children self))))
   \<longrightarrow> (\<exists>c. best_child self 0 = Inr c \<and> c \<in> set (children self)
            \<and> (\<forall>c'\<in>set (children self).
                   node_value c' / real (visits c') \<le> node_value c / real (visits c)))"
proof
  assume a: "children self \<noteq> [] \<and> visits self > 0 \<and> (\<forall>c\<in>set (children self). visits c > 0)
   \<and> ((3 < length (node_player_tiles self) \<and> length (node_player_tiles self) < 10)
       \<or> (\<forall>c\<in>set (children self). visits c = visits (hd (children self))))"
  let ?e = "effective_exploration_factor self 0"
  from a best_child_maximises_score[of self 0] obtain c where
    c: "best_child self 0 = Inr c" "c \<in> set (children self)"
    and mx: "\<forall>c'\<in>set (children self).
                 average c' + ?e * sqrt (2 * ln (real (visits self)) / real (visits c'))
                 \<le> average c + ?e * sqrt (2 * ln (real (visits self)) / real (visits c))"
    by blast
  have "\<forall>c'\<in>set (children self). average c' \<le> average c"
  proof
    fix c' assume c': "c' \<in> set (children self)"
    from a consider
      (mid) "3 < length (node_player_tiles self) \<and> length (node_player_tiles self) < 10"
      | (same) "\<forall>c\<in>set (children self). visits c = visits (hd (children self))"
      by blast
    then show "average c' \<le> average c"
    proof cases
      case mid
      then have "?e = 0" by (simp add: effective_exploration_factor_def)
      moreover from mx c' have "average c' + ?e * sqrt (2 * ln (real (visits self)) / real (visits c'))
                 \<le> average c + ?e * sqrt (2 * ln (real (visits self)) / real (visits c))"
        by blast
      ultimately show ?thesis by simp
    next
      case same
      with c' c(2) have eq: "visits c' = visits c" by simp
      from mx c' have "average c' + ?e * sqrt (2 * ln (real (visits self)) / real (visits c'))
                 \<le> average c + ?e * sqrt (2 * ln (real (visits self)) / real (visits c))"
        by blast
      then show ?thesis by (simp add: eq)
    qed
  qed
  with c show "\<exists>c. best_child self 0 = Inr c \<and> c \<in> set (children self)
            \<and> (\<forall>c'\<in>set (children self).
                   node_value c' / real (visits c') \<le> node_value c / real (visits c))"
    by (auto simp: average_def)
qed

lemma select_path_stops: "select_path node path = Some (Inr path)"
  by (subst select_path.simps) (auto simp: is_terminal_def is_fully_expanded_def)

lemma visits_credit [simp]: "visits (credit w k n) = visits n + k"
  by (cases n) (simp add: credit_def)

lemma children_credit [simp]: "children (credit w k n) = children n"
  by (cases n) (simp add: credit_def)

lemma children_with_children [simp]: "children (with_children n cs) = cs"
  by (cases n) (simp add: with_children_def)

lemma visits_with_children [simp]: "visits (with_children n cs) = visits n"
  by (cases n) (simp add: with_children_def)

lemma expand_result:
  assumes "expand n = Inr (n', attached)"
  shows "visits n' = visits n
         \<and> (if attached then \<exists>ch. children n' = children n @ [ch] \<and> visits ch = 0
             else children n' = children n)"
proof (cases n)
  case (Node b h mv cs v w untried)
  with assms show ?thesis
    by (auto simp: expand_def Let_def new_node_def split: if_splits sum.splits bool.splits)
qed

lemma mcts_iteration_returns: "mcts_iteration rollout i root_node \<noteq> None"
  by (simp add: mcts_iteration_def select_path_stops)

lemma mcts_iteration_keeps:
  assumes "mcts_iteration rollout i root_node = Some (Inr root')" "children_rolled_out root_node"
  shows "children_rolled_out root'"
proof (cases "is_terminal root_node")
  case True
  with assms(1) obtain w where "rollout i = Inr w" "root' = credit w 8 root_node"
    by (auto simp: mcts_iteration_def select_path_stops split: sum.splits)
  with assms(2) show ?thesis by (auto simp: children_rolled_out_def)
next
  case False
  with assms(1) obtain expanded attached where
    e: "expand root_node = Inr (expanded, attached)"
    by (auto simp: mcts_iteration_def select_path_stops Let_def split: sum.splits)
  note r = expand_result[OF e]
  show ?thesis
  proof (cases attached)
    case no: False
    with False assms(1) e have "root' = expanded"
      by (auto simp: mcts_iteration_def select_path_stops Let_def split: sum.splits)
    with r no assms(2) show ?thesis by (simp add: children_rolled_out_def)
  next
    case True
    with r obtain ch where ch: "children expanded = children root_node @ [ch]" "visits ch = 0"
      by auto
    from True False assms(1) e obtain w where
      "rollout i = Inr w"
      "root' = backpropagate [length (children expanded) - 1] w 8 expanded"
      by (auto simp: mcts_iteration_def select_path_stops Let_def split: sum.splits)
    with ch have "children root' = children root_node @ [credit w 8 ch]"
      and "visits root' = visits expanded + 8"
      by simp_all
    with ch assms(2) show ?thesis by (simp add: children_rolled_out_def)
  qed
qed

lemma mcts_loop_returns: "mcts_loop rollout steps root_node \<noteq> None"
proof (induction steps arbitrary: root_node)
  case (Cons i steps)
  show ?case
    using mcts_iteration_returns[of rollout i root_node] Cons.IH
    by (auto split: option.splits sum.splits)
qed simp

lemma mcts_loop_keeps:
  "mcts_loop rollout steps root_node = Some (Inr root') \<Longrightarrow> children_rolled_out root_node
   \<Longrightarrow> children_rolled_out root'"
proof (induction steps arbitrary: root_node)
  case (Cons i steps)
  from Cons.prems(1) obtain r1 where
    s1: "mcts_iteration rollout i root_node = Some (Inr r1)"
    and s2: "mcts_loop rollout steps r1 = Some (Inr root')"
    by (auto split: option.splits sum.splits)
  from mcts_iteration_keeps[OF s1 Cons.prems(2)] show ?case by (rule Cons.IH[OF s2])
qed simp

lemma mcts_search_keeps:
  assumes "mcts_search rollout simulations board_now player_tiles = Some (Inr root_node)"
  shows "children_rolled_out root_node"
proof -
  from assms obtain r0 where
    n: "new_node board_now player_tiles None = Inr r0"
    and l: "mcts_loop rollout [0 ..< simulations] r0 = Some (Inr root_node)"
    by (auto simp: mcts_search_def split: sum.splits)
  from n have "children_rolled_out r0"
    by (auto simp: new_node_def children_rolled_out_def split: sum.splits)
  with l show ?thesis by (rule mcts_loop_keeps)
qed

text \<open>
  C8. The search of \<open>MCTSPlayer.AI_logic\<close> ends, whatever the board, the hand, the number
  of simulations and the results of the rollouts. When the root it has built has a child,
  the final call of \<open>best_child\<close> with the factor 0 returns a child of the root whose
  average \<open>value / visits\<close> no other child exceeds, for a hand of any size, and \<open>AI_logic\<close>
  returns the move of that child. (The selection loop never descends, so at the final
  choice every child has the 8 visits of its one rollout; where \<open>best_child\<close> replaces the
  factor 0 by 0.5 or 2.0, the bonus is the same for every child.)
\<close>

theorem mcts_final_choice_maximises_average:
  "mcts_search rollout simulations board_now player_tiles \<noteq> None
   \<and> (mcts_search rollout simulations board_now player_tiles = Some (Inr root_node)
        \<and> children root_node \<noteq> []
      \<longrightarrow> (\<exists>c. best_child root_node 0 = Inr c \<and> c \<in> set (children root_node)
               \<and> (\<forall>c'\<in>set (children root_node).
                     node_value c' / real (visits c') \<le> node_value c / real (visits c))
               \<and> mcts_AI_logic rollout simulations board_now player_tiles
                   = Some (Inr (move_of c))))"
proof (intro conjI impI)
  show "mcts_search rollout simulations board_now player_tiles \<noteq> None"
    using mcts_loop_returns by (auto simp: mcts_search_def split: sum.splits)
next
  assume a: "mcts_search rollout simulations board_now player_tiles = Some (Inr root_node)
        \<and> children root_node \<noteq> []"
  then have "mcts_search rollout simulations board_now player_tiles = Some (Inr root_node)" ..
  then have inv: "children_rolled_out root_node" by (rule mcts_search_keeps)
  from a obtain first rest where fr: "children root_node = first # rest"
    by (cases "children root_node") auto
  from inv have eight: "\<forall>c\<in>set (children root_node). visits c = 8"
    and pos: "0 < visits root_node"
    using a by (auto simp: children_rolled_out_def list_all_iff)
  from eight fr have same: "\<forall>c\<in>set (children root_node). visits c = visits (hd (children root_node))"
    by simp
  from a have ne: "children root_node \<noteq> []" ..
  from eight have pv: "\<forall>c\<in>set (children root_node). 0 < visits c" by simp
  note ex = best_child_exploitation [of root_node, THEN mp,
              OF conjI [OF ne conjI [OF pos conjI [OF pv disjI2 [OF same]]]]]
  from ex obtain c where
    c: "best_child root_node 0 = Inr c" "c \<in> set (children root_node)"
       "\<forall>c'\<in>set (children root_node).
           node_value c' / real (visits c') \<le> node_value c / real (visits c)"
    by (elim exE conjE) (rule that)
  from a c(1) have m: "mcts_AI_logic rollout simulations board_now player_tiles = Some (Inr (move_of c))"
    by (simp add: mcts_AI_logic_def)
  show "\<exists>c. best_child root_node 0 = Inr c \<and> c \<in> set (children root_node)
               \<and> (\<forall>c'\<in>set (children root_node).
                     node_value c' / real (visits c') \<le> node_value c / real (visits c))
               \<and> mcts_AI_logic rollout simulations board_now player_tiles
                   = Some (Inr (move_of c))"
    by (rule exI [of _ c]) (intro conjI c m)
qed

lemma moves_hand_10: "get_all_moves [] hand_10 = Inr [move_red, move_blue, move_green]"
  by code_simp

lemma prune_hand_10:
  "prune_move (snd move_red) = Inr False" "prune_move (snd move_blue) = Inr False"
  "prune_move (snd move_green) = Inr False"
  by code_simp+

lemma child_moves_hand_10:
  "\<exists>mv. get_all_moves (fst move_red) (snd move_red) = Inr mv"
  "\<exists>mv. get_all_moves (fst move_blue) (snd move_blue) = Inr mv"
  "\<exists>mv. get_all_moves (fst move_green) (snd move_green) = Inr mv"
proof -
  have "case get_all_moves (fst move_red) (snd move_red) of Inl e \<Rightarrow> False | Inr mv \<Rightarrow> True"
    by code_simp
  then show "\<exists>mv. get_all_moves (fst move_red) (snd move_red) = Inr mv"
    by (cases "get_all_moves (fst move_red) (snd move_red)") auto
  have "case get_all_moves (fst move_blue) (snd move_blue) of Inl e \<Rightarrow> False | Inr mv \<Rightarrow> True"
    by code_simp
  then show "\<exists>mv. get_all_moves (fst move_blue) (snd move_blue) = Inr mv"
    by (cases "get_all_moves (fst move_blue) (snd move_blue)") auto
  have "case get_all_moves (fst move_green) (snd move_green) of Inl e \<Rightarrow> False | Inr mv \<Rightarrow> True"
    by code_simp
  then show "\<exists>mv. get_all_moves (fst move_green) (snd move_green) = Inr mv"
    by (cases "get_all_moves (fst move_green) (snd move_green)") auto
qed

lemma mcts_search_hand_10:
  "\<exists>ur ub ug.
     mcts_search (\<lambda>i. Inr (if i = 1 then 3 else 1 / 2)) 4 [] hand_10
       = Some (Inr (Node [] hand_10 None
                      [Node (fst move_green) (snd move_green) (Some move_green) [] 8 (1 / 2) ug,
                       Node (fst move_blue) (snd move_blue) (Some move_blue) [] 8 3 ub,
                       Node (fst move_red) (snd move_red) (Some move_red) [] 8 (1 / 2) ur]
                      32 (9 / 2) []))"
proof -
  from child_moves_hand_10 obtain ur ub ug where
    c: "get_all_moves (fst move_red) (snd move_red) = Inr ur"
       "get_all_moves (fst move_blue) (snd move_blue) = Inr ub"
       "get_all_moves (fst move_green) (snd move_green) = Inr ug"
    by blast
  have l: "hand_10 \<noteq> []" by (simp add: hand_10_def)
  have u: "[0 ..< 4] = [0, 1, 2, 3]" by (simp add: upt_rec)
  have "mcts_search (\<lambda>i. Inr (if i = 1 then 3 else 1 / 2)) 4 [] hand_10
       = Some (Inr (Node [] hand_10 None
                      [Node (fst move_green) (snd move_green) (Some move_green) [] 8 (1 / 2) ug,
                       Node (fst move_blue) (snd move_blue) (Some move_blue) [] 8 3 ub,
                       Node (fst move_red) (snd move_red) (Some move_red) [] 8 (1 / 2) ur]
                      32 (9 / 2) []))"
    by (simp add: mcts_search_def new_node_def moves_hand_10 u mcts_iteration_def
          select_path_stops is_terminal_def expand_def prune_hand_10 c credit_def
          with_children_def Let_def l)
  then show ?thesis by blast
qed

theorem mcts_final_choice_witness:
  "\<exists>root_node c.
     mcts_search (\<lambda>i. Inr (if i = 1 then 3 else 1 / 2)) 4 [] hand_10 = Some (Inr root_node)
     \<and> length (node_player_tiles root_node) = 10 \<and> length (children root_node) = 3
     \<and> best_child root_node 0 = Inr c \<and> node_value c / real (visits c) = 3 / 8
     \<and> mcts_AI_logic (\<lambda>i. Inr (if i = 1 then 3 else 1 / 2)) 4 [] hand_10
         = Some (Inr (move_of c))"
proof -
  from mcts_search_hand_10 obtain ur ub ug where
    s: "mcts_search (\<lambda>i. Inr (if i = 1 then 3 else 1 / 2)) 4 [] hand_10
       = Some (Inr (Node [] hand_10 None
                      [Node (fst move_green) (snd move_green) (Some move_green) [] 8 (1 / 2) ug,
                       Node (fst move_blue) (snd move_blue) (Some move_blue) [] 8 3 ub,
                       Node (fst move_red) (snd move_red) (Some move_red) [] 8 (1 / 2) ur]
                      32 (9 / 2) []))"
    by blast
  let ?root = "Node [] hand_10 None
                      [Node (fst move_green) (snd move_green) (Some move_green) [] 8 (1 / 2) ug,
                       Node (fst move_blue) (snd move_blue) (Some move_blue) [] 8 3 ub,
                       Node (fst move_red) (snd move_red) (Some move_red) [] 8 (1 / 2) ur]
                      32 (9 / 2) []"
  have ne: "children ?root \<noteq> []" by simp
  note ex = mcts_final_choice_maximises_average
              [of "\<lambda>i. Inr (if i = 1 then 3 else 1 / 2)" 4 "[]" hand_10 ?root,
               THEN conjunct2, THEN mp, OF conjI [OF s ne]]
  from ex obtain c where
    c: "best_child ?root 0 = Inr c" "c \<in> set (children ?root)"
    and mx: "\<forall>c'\<in>set (children ?root).
               node_value c' / real (visits c') \<le> node_value c / real (visits c)"
    and m: "mcts_AI_logic (\<lambda>i. Inr (if i = 1 then 3 else 1 / 2)) 4 [] hand_10
              = Some (Inr (move_of c))"
    by (elim exE conjE) (rule that)
  from mx have "3 / 8 \<le> node_value c / real (visits c)" by simp
  with c(2) have avg: "node_value c / real (visits c) = 3 / 8" by auto
  have len: "length (node_player_tiles ?root) = 10" by (simp add: hand_10_def)
  have three: "length (children ?root) = 3" by simp
  show ?thesis
    by (rule exI [of _ ?root], rule exI [of _ c]) (intro conjI s len three c(1) avg m)
qed

section \<open>Tile count over a turn\<close>

lemma is_permutation_mset: "is_permutation xs ys \<Longrightarrow> mset xs = mset ys"
  by (induction xs arbitrary: ys) (auto simp: )



lemma example_shuffle_permutation: "is_permutation example_shuffle create_tiles"
  by code_simp



lemma draw_tile_record:
  "draw_tile \<lparr>tile_pool = p @ [t], players_tiles = hs, board_tiles = b,
      current_player_idx = i, is_done = d, game_over = g, players = ps\<rparr>
   = \<lparr>tile_pool = p, players_tiles = hs[i := hs ! i @ [t]], board_tiles = b,
      current_player_idx = i, is_done = d, game_over = g, players = ps\<rparr>"
  by (simp add: draw_tile_def)

lemma draw_tiles_record:
  "i < length hs \<Longrightarrow>
   (draw_tile ^^ length ts)
      \<lparr>tile_pool = p @ rev ts, players_tiles = hs, board_tiles = b,
       current_player_idx = i, is_done = d, game_over = g, players = ps\<rparr>
   = \<lparr>tile_pool = p, players_tiles = hs[i := hs ! i @ ts], board_tiles = b,
      current_player_idx = i, is_done = d, game_over = g, players = ps\<rparr>"
proof (induction ts arbitrary: hs)
  case (Cons t ts)
  have "(draw_tile ^^ length (t # ts))
      \<lparr>tile_pool = p @ rev (t # ts), players_tiles = hs, board_tiles = b,
       current_player_idx = i, is_done = d, game_over = g, players = ps\<rparr>
    = (draw_tile ^^ length ts)
        (draw_tile \<lparr>tile_pool = (p @ rev ts) @ [t], players_tiles = hs, board_tiles = b,
           current_player_idx = i, is_done = d, game_over = g, players = ps\<rparr>)"
    by (simp add: funpow_swap1)
  also have "\<dots> = (draw_tile ^^ length ts)
        \<lparr>tile_pool = p @ rev ts, players_tiles = hs[i := hs ! i @ [t]], board_tiles = b,
           current_player_idx = i, is_done = d, game_over = g, players = ps\<rparr>"
    by (simp only: draw_tile_record)
  also have "\<dots> = \<lparr>tile_pool = p, players_tiles = (hs[i := hs ! i @ [t]])[i := (hs[i := hs ! i @ [t]]) ! i @ ts],
      board_tiles = b, current_player_idx = i, is_done = d, game_over = g, players = ps\<rparr>"
    using Cons.prems by (intro Cons.IH) simp
  finally show ?case using Cons.prems by simp
qed simp

lemma new_game_example: "new_game example_shuffle s0 s1 =
   \<lparr>tile_pool = example_rest,
    players_tiles = [example_hand_0, example_hand_1], board_tiles = [],
    current_player_idx = 0, is_done = [False, False], game_over = False,
    players = [\<lparr>strategy = s0, has_made_initial_meld = False\<rparr>,
                  \<lparr>strategy = s1, has_made_initial_meld = False\<rparr>]\<rparr>"
proof -
  have l0: "length example_hand_0 = 14" by (simp add: example_hand_0_def)
  have l1: "length example_hand_1 = 14" by (simp add: example_hand_1_def upt_rec)
  have "(draw_tile ^^ 14)
          \<lparr>tile_pool = example_shuffle, players_tiles = [[], []], board_tiles = [],
           current_player_idx = 0, is_done = [False, False], game_over = False, players = []\<rparr>
        = \<lparr>tile_pool = example_rest @ rev example_hand_1, players_tiles = [example_hand_0, []],
           board_tiles = [], current_player_idx = 0, is_done = [False, False],
           game_over = False, players = []\<rparr>"
    using draw_tiles_record [of 0 "[[], []]" example_hand_0 "example_rest @ rev example_hand_1"
            "[]" "[False, False]" False "[]"]
    by (simp add: l0 example_shuffle_def)
  moreover have "(draw_tile ^^ 14)
          \<lparr>tile_pool = example_rest @ rev example_hand_1, players_tiles = [example_hand_0, []],
           board_tiles = [], current_player_idx = 1, is_done = [False, False],
           game_over = False, players = []\<rparr>
        = \<lparr>tile_pool = example_rest, players_tiles = [example_hand_0, example_hand_1],
           board_tiles = [], current_player_idx = 1, is_done = [False, False],
           game_over = False, players = []\<rparr>"
    using draw_tiles_record [of 1 "[example_hand_0, []]" example_hand_1 example_rest
            "[]" "[False, False]" False "[]"]
    by (simp add: l1)
  ultimately show ?thesis
    by (simp add: new_game_def deal_initial_tiles_def switch_player_def)
qed

lemma play_turn_example_hand_0: "play_turn AI False [] example_hand_0 =
  Inr (True,
      ([[(''red'', Some 5, False), (''red'', Some 6, False), (''red'', Some 7, False)],
        [(''blue'', Some 4, False), (''blue'', Some 5, False), (''blue'', Some 6, False)]],
       [(''blue'', Some 4, False), (''blue'', Some 5, False), (''blue'', Some 6, False),
        (''joker'', None, True), (''joker'', None, True), (''green'', Some 1, False),
        (''green'', Some 3, False), (''green'', Some 9, False), (''yellow'', Some 1, False),
        (''yellow'', Some 11, False), (''yellow'', Some 13, False)]),
      Some
       ([[(''red'', Some 5, False), (''red'', Some 6, False), (''red'', Some 7, False)],
         [(''blue'', Some 4, False), (''blue'', Some 5, False), (''blue'', Some 6, False)]],
        [(''blue'', Some 4, False), (''blue'', Some 5, False), (''blue'', Some 6, False),
         (''joker'', None, True), (''joker'', None, True), (''green'', Some 1, False),
         (''green'', Some 3, False), (''green'', Some 9, False), (''yellow'', Some 1, False),
         (''yellow'', Some 11, False), (''yellow'', Some 13, False)]))"
  by code_simp


lemma ai_VS_ai_step_example:
  "ai_VS_ai_step AI
     \<lparr>tile_pool = pool @ [t], players_tiles = [example_hand_0, other_hand], board_tiles = [],
      current_player_idx = 0, is_done = [False, False], game_over = False,
      players = [\<lparr>strategy = s, has_made_initial_meld = False\<rparr>, p1]\<rparr>
     = Inr \<lparr>tile_pool = pool,
            players_tiles =
              [[(''blue'', Some 4, False), (''blue'', Some 5, False), (''blue'', Some 6, False),
                (''joker'', None, True), (''joker'', None, True), (''green'', Some 1, False),
                (''green'', Some 3, False), (''green'', Some 9, False),
                (''yellow'', Some 1, False), (''yellow'', Some 11, False),
                (''yellow'', Some 13, False), t],
               other_hand],
            board_tiles =
              [[(''red'', Some 5, False), (''red'', Some 6, False), (''red'', Some 7, False)],
               [(''blue'', Some 4, False), (''blue'', Some 5, False), (''blue'', Some 6, False)]],
            current_player_idx = 1, is_done = [False, False], game_over = False,
            players = [\<lparr>strategy = s, has_made_initial_meld = True\<rparr>, p1]\<rparr>
   \<and> total_tiles
        \<lparr>tile_pool = pool @ [t], players_tiles = [example_hand_0, other_hand], board_tiles = [],
         current_player_idx = 0, is_done = [False, False], game_over = False,
         players = [\<lparr>strategy = s, has_made_initial_meld = False\<rparr>, p1]\<rparr>
       = length pool + length other_hand + 15
   \<and> total_tiles
        \<lparr>tile_pool = pool,
         players_tiles =
              [[(''blue'', Some 4, False), (''blue'', Some 5, False), (''blue'', Some 6, False),
                (''joker'', None, True), (''joker'', None, True), (''green'', Some 1, False),
                (''green'', Some 3, False), (''green'', Some 9, False),
                (''yellow'', Some 1, False), (''yellow'', Some 11, False),
                (''yellow'', Some 13, False), t],
               other_hand],
         board_tiles =
              [[(''red'', Some 5, False), (''red'', Some 6, False), (''red'', Some 7, False)],
               [(''blue'', Some 4, False), (''blue'', Some 5, False), (''blue'', Some 6, False)]],
         current_player_idx = 1, is_done = [False, False], game_over = False,
         players = [\<lparr>strategy = s, has_made_initial_meld = True\<rparr>, p1]\<rparr>
       = length pool + length other_hand + 18"
proof (intro conjI)
qed (simp_all add: ai_VS_ai_step_def play_turn_example_hand_0 draw_tile_def switch_player_def
        total_tiles_def Let_def, simp_all add: example_hand_0_def)


text \<open>
  C3. The pool \<open>example_shuffle\<close> is a rearrangement of the 106 created tiles. The game
  dealt from it holds 106 tiles; after the first turn of \<open>ai_VS_ai\<close>, in which player 0
  makes the initial meld of two runs, it holds 109: both runs are on the board, only the
  tiles of the first run have left the hand, and a tile has been drawn.
\<close>

theorem tile_conservation_broken:
  "mset example_shuffle = mset create_tiles
   \<and> total_tiles (new_game example_shuffle Greedy Greedy) = 106
   \<and> map_sum id total_tiles
        (ai_VS_ai_step greedy_AI_logic (new_game example_shuffle Greedy Greedy)) = Inr 109"
proof (intro conjI)
  show "mset example_shuffle = mset create_tiles"
    by (rule is_permutation_mset) (rule example_shuffle_permutation)
  have l1: "length example_hand_1 = 14" by (simp add: example_hand_1_def upt_rec)
  have lr: "length example_rest = 78" by (simp add: example_rest_def)
  show "total_tiles (new_game example_shuffle Greedy Greedy) = 106"
    by (simp add: new_game_example total_tiles_def l1 lr) (simp add: example_hand_0_def)
  from lr have "example_rest \<noteq> []" by auto
  then have split: "example_rest = butlast example_rest @ [last example_rest]" by simp
  have "new_game example_shuffle Greedy Greedy
          = \<lparr>tile_pool = butlast example_rest @ [last example_rest],
             players_tiles = [example_hand_0, example_hand_1], board_tiles = [],
             current_player_idx = 0, is_done = [False, False], game_over = False,
             players = [\<lparr>strategy = Greedy, has_made_initial_meld = False\<rparr>,
                        \<lparr>strategy = Greedy, has_made_initial_meld = False\<rparr>]\<rparr>"
    by (subst new_game_example, subst (1) split, rule refl)
  then show "map_sum id total_tiles
        (ai_VS_ai_step greedy_AI_logic (new_game example_shuffle Greedy Greedy)) = Inr 109"
    by (simp only: ai_VS_ai_step_example [THEN conjunct1])
       (simp add: total_tiles_def l1 lr)
qed
section \<open>Initial meld: the 30 point gate\<close>







































end
